theory Spec2Isabelle
  imports Main
begin

section \<open>Go strings and the standard-library functions the parser calls\<close>

text \<open>
  A Go string is a sequence of bytes; \<open>string\<close> (a list of 8-bit characters) is used for
  it. The embedding is of the build the repository's workflow runs (linux/amd64): the
  path separator is the forward slash and \<open>int\<close> has 64 bits.
\<close>

type_synonym rune = nat

definition byteval :: "char \<Rightarrow> nat" where
  "byteval c = of_char c"

definition RuneError :: rune where
  "RuneError = 0xFFFD"

text \<open>\<open>utf8.DecodeRuneInString\<close>: the first rune of the string and its width in bytes.\<close>

fun DecodeRuneInString :: "string \<Rightarrow> rune \<times> nat" where
  "DecodeRuneInString [] = (RuneError, 0)"
| "DecodeRuneInString (c0 # s) =
     (let s0 = byteval c0 in
      if s0 < 0x80 then (s0, 1)
      else if s0 < 0xC2 \<or> 0xF4 < s0 then (RuneError, 1)
      else
        let sz = (if s0 < 0xE0 then 2 else if s0 < 0xF0 then 3 else (4::nat));
            lo = (if s0 = 0xE0 then 0xA0 else if s0 = 0xF0 then 0x90 else (0x80::nat));
            hi = (if s0 = 0xED then 0x9F else if s0 = 0xF4 then 0x8F else (0xBF::nat))
        in
          if Suc (length s) < sz then (RuneError, 1)
          else
            let s1 = byteval (s ! 0) in
            if s1 < lo \<or> hi < s1 then (RuneError, 1)
            else if sz \<le> 2 then ((s0 mod 0x20) * 0x40 + s1 mod 0x40, 2)
            else
              let s2 = byteval (s ! 1) in
              if s2 < 0x80 \<or> 0xBF < s2 then (RuneError, 1)
              else if sz \<le> 3 then
                ((s0 mod 0x10) * 0x1000 + (s1 mod 0x40) * 0x40 + s2 mod 0x40, 3)
              else
                let s3 = byteval (s ! 2) in
                if s3 < 0x80 \<or> 0xBF < s3 then (RuneError, 1)
                else ((s0 mod 8) * 0x40000 + (s1 mod 0x40) * 0x1000
                        + (s2 mod 0x40) * 0x40 + s3 mod 0x40, 4))"

text \<open>\<open>utf8.RuneStart\<close>: the byte is not a continuation byte.\<close>

definition RuneStart :: "char \<Rightarrow> bool" where
  "RuneStart c = (byteval c div 0x40 \<noteq> 2)"

text \<open>The backward scan of \<open>utf8.DecodeLastRuneInString\<close> for the start of the last rune.\<close>

function findStart :: "string \<Rightarrow> int \<Rightarrow> int \<Rightarrow> int" where
  "findStart s start lim =
     (if lim \<le> start \<and> 0 \<le> start
      then (if RuneStart (s ! nat start) then start else findStart s (start - 1) lim)
      else start)"
  by pat_completeness auto
termination
  by (relation "measure (\<lambda>(s, start, lim). nat (start + 1))") auto

declare findStart.simps [simp del]

definition DecodeLastRuneInString :: "string \<Rightarrow> rune \<times> nat" where
  "DecodeLastRuneInString s =
     (let end = int (length s) in
      if end = 0 then (RuneError, 0)
      else
        let r = byteval (s ! nat (end - 1)) in
        if r < 0x80 then (r, 1)
        else
          let lim = (if end - 4 < 0 then 0 else end - 4);
              start0 = findStart s (end - 2) lim;
              start = (if start0 < 0 then 0 else start0);
              (r', size) = DecodeRuneInString (drop (nat start) s)
          in if start + int size \<noteq> end then (RuneError, 1) else (r', size))"

text \<open>\<open>unicode.IsSpace\<close>.\<close>

definition IsSpace :: "rune \<Rightarrow> bool" where
  "IsSpace r =
     (if r \<le> 0xFF
      then r = 0x09 \<or> r = 0x0A \<or> r = 0x0B \<or> r = 0x0C \<or> r = 0x0D \<or> r = 0x20
             \<or> r = 0x85 \<or> r = 0xA0
      else r = 0x1680 \<or> (0x2000 \<le> r \<and> r \<le> 0x200A) \<or> r = 0x2028 \<or> r = 0x2029
             \<or> r = 0x202F \<or> r = 0x205F \<or> r = 0x3000)"

text \<open>
  \<open>strings.FieldsFunc(s, unicode.IsSpace)\<close>, which is what \<open>strings.Fields\<close> computes
  (its ASCII fast path splits at the same six ASCII space bytes). \<open>cur\<close> holds the bytes
  of the field being read, empty when no field is open.
\<close>

function FieldsLoop :: "string \<Rightarrow> string \<Rightarrow> string list" where
  "FieldsLoop s cur =
     (if s = [] then (if cur = [] then [] else [cur])
      else
        let (r, size) = DecodeRuneInString s in
        if IsSpace r
        then (if cur = [] then FieldsLoop (drop size s) []
              else cur # FieldsLoop (drop size s) [])
        else FieldsLoop (drop size s) (cur @ take size s))"
  by pat_completeness auto
termination
proof (relation "measure (\<lambda>(s, cur). length s)")
  show "wf (measure (\<lambda>(s, cur). length s))" by simp
next
  fix s cur :: string and x :: "rune \<times> nat" and r size
  assume "s \<noteq> []" "x = DecodeRuneInString s" "(r, size) = x"
  then have "0 < size" by (cases s) (auto simp: Let_def split: if_splits)
  with \<open>s \<noteq> []\<close> show "((drop size s, []), (s, cur)) \<in> measure (\<lambda>(s, cur). length s)"
    by simp
  from \<open>0 < size\<close> \<open>s \<noteq> []\<close>
  show "((drop size s, []), (s, cur)) \<in> measure (\<lambda>(s, cur). length s)"
    by simp
  from \<open>0 < size\<close> \<open>s \<noteq> []\<close>
  show "((drop size s, cur @ take size s), (s, cur)) \<in> measure (\<lambda>(s, cur). length s)"
    by simp
qed

declare FieldsLoop.simps [simp del]

definition Fields :: "string \<Rightarrow> string list" where
  "Fields s = FieldsLoop s []"

text \<open>\<open>strings.TrimLeftFunc(s, unicode.IsSpace)\<close>.\<close>

function TrimLeftSpace :: "string \<Rightarrow> string" where
  "TrimLeftSpace s =
     (if s = [] then []
      else
        let (r, size) = DecodeRuneInString s in
        if IsSpace r then TrimLeftSpace (drop size s) else s)"
  by pat_completeness auto
termination
proof (relation "measure length")
  show "wf (measure length)" by simp
next
  fix s :: string and x :: "rune \<times> nat" and r size
  assume "s \<noteq> []" "x = DecodeRuneInString s" "(r, size) = x"
  then have "0 < size" by (cases s) (auto simp: Let_def split: if_splits)
  with \<open>s \<noteq> []\<close> show "(drop size s, s) \<in> measure length" by simp
qed

declare TrimLeftSpace.simps [simp del]

text \<open>
  \<open>lastIndexFunc(s, unicode.IsSpace, false)\<close>: the index of the last rune that is not a
  space, decoding backwards; \<open>None\<close> is the \<open>-1\<close> of the source.
\<close>

function lastIndexNotSpace :: "string \<Rightarrow> nat option" where
  "lastIndexNotSpace s =
     (if s = [] then None
      else
        let (r, size) = DecodeLastRuneInString s;
            i = length s - size
        in if \<not> IsSpace r then Some i else lastIndexNotSpace (take i s))"
  by pat_completeness auto
termination
proof (relation "measure length")
  show "wf (measure length)" by simp
next
  fix s :: string and x :: "rune \<times> nat" and r size i
  assume ne: "s \<noteq> []" and x: "x = DecodeLastRuneInString s" "(r, size) = x"
    and i: "i = length s - size"
  have le: "findStart t start lim \<le> start" for t start lim
  proof (induction t start lim rule: findStart.induct)
    case (1 t start lim)
    then show ?case by (subst findStart.simps) auto
  qed
  define e where "e = int (length s)"
  define lim where "lim = (if e - 4 < 0 then 0 else e - 4)"
  define start where
    "start = (if findStart s (e - 2) lim < 0 then 0 else findStart s (e - 2) lim)"
  have "start < e" "0 \<le> start"
    using le [of s "e - 2" lim] ne by (auto simp: start_def e_def)
  then have "drop (nat start) s \<noteq> []" by (simp add: e_def)
  then have "0 < snd (DecodeRuneInString (drop (nat start) s))"
    by (cases "drop (nat start) s") (auto simp: Let_def split: if_splits)
  moreover have "e \<noteq> 0" using ne by (simp add: e_def)
  ultimately have "0 < snd (DecodeLastRuneInString s)"
    unfolding DecodeLastRuneInString_def Let_def e_def [symmetric] lim_def [symmetric]
      start_def [symmetric]
    by (auto split: prod.splits)
  with x have "0 < size" by (metis snd_conv)
  with ne i show "(take i s, s) \<in> measure length" by simp
qed

declare lastIndexNotSpace.simps [simp del]

text \<open>\<open>strings.TrimRightFunc(s, unicode.IsSpace)\<close>.\<close>

definition TrimRightSpace :: "string \<Rightarrow> string" where
  "TrimRightSpace s =
     (case lastIndexNotSpace s of
        None \<Rightarrow> []
      | Some i \<Rightarrow>
          if 0x80 \<le> byteval (s ! i)
          then take (i + snd (DecodeRuneInString (drop i s))) s
          else take (i + 1) s)"

text \<open>
  \<open>strings.TrimSpace\<close>: leading spaces are cut decoding forwards, trailing ones decoding
  backwards (the ASCII fast paths of the source cut the same bytes).
\<close>

definition TrimSpace :: "string \<Rightarrow> string" where
  "TrimSpace s = TrimRightSpace (TrimLeftSpace s)"

definition HasPrefix :: "string \<Rightarrow> string \<Rightarrow> bool" where
  "HasPrefix s p = (length p \<le> length s \<and> take (length p) s = p)"

definition TrimPrefix :: "string \<Rightarrow> string \<Rightarrow> string" where
  "TrimPrefix s p = (if HasPrefix s p then drop (length p) s else s)"

definition HasSuffix :: "string \<Rightarrow> string \<Rightarrow> bool" where
  "HasSuffix s p = (length p \<le> length s \<and> drop (length s - length p) s = p)"

definition TrimSuffix :: "string \<Rightarrow> string \<Rightarrow> string" where
  "TrimSuffix s p = (if HasSuffix s p then take (length s - length p) s else s)"

text \<open>
  \<open>strconv.Atoi\<close> for a 64-bit \<open>int\<close>: an optional sign, then at least one decimal
  digit and nothing else; a value outside the 64-bit range is an error as well. \<open>None\<close>
  stands for the non-nil error of the source.
\<close>

definition isDigit :: "char \<Rightarrow> bool" where
  "isDigit c = (48 \<le> byteval c \<and> byteval c \<le> 57)"

definition digitsValue :: "string \<Rightarrow> int" where
  "digitsValue ds = foldl (\<lambda>n ch. n * 10 + (int (byteval ch) - 48)) 0 ds"

definition Atoi :: "string \<Rightarrow> int option" where
  "Atoi s =
     (if s = [] then None
      else
        let neg = (hd s = CHR ''-'');
            body = (if hd s = CHR ''-'' \<or> hd s = CHR ''+'' then tl s else s)
        in
          if body = [] \<or> \<not> list_all isDigit body then None
          else
            let n = (if neg then - digitsValue body else digitsValue body) in
            if n < - (2 ^ 63) \<or> 2 ^ 63 - 1 < n then None else Some n)"

text \<open>
  \<open>fmt.Sprintf\<close> with the verbs the repository uses. \<open>decDigits\<close> is the digit loop of
  \<open>fmtInteger\<close>; \<open>fmt_03d\<close> is the verb \<open>%03d\<close> (zero flag, width 3: the digits are
  padded with zeros up to the width, one less when a sign is written), \<open>fmt_d\<close> is
  \<open>%d\<close>.
\<close>

function decDigits :: "nat \<Rightarrow> string" where
  "decDigits u =
     (if u < 10 then [''0123456789'' ! u]
      else decDigits (u div 10) @ [''0123456789'' ! (u mod 10)])"
  by pat_completeness auto
termination
  by (relation "measure id") auto

declare decDigits.simps [simp del]

definition fmt_03d :: "int \<Rightarrow> string" where
  "fmt_03d n =
     (let negative = (n < 0);
          ds = decDigits (nat \<bar>n\<bar>);
          prec = (if negative then 2 else 3);
          padded = replicate (prec - length ds) (CHR ''0'') @ ds
      in if negative then CHR ''-'' # padded else padded)"

definition fmt_d :: "int \<Rightarrow> string" where
  "fmt_d n = (if n < 0 then CHR ''-'' # decDigits (nat \<bar>n\<bar>) else decDigits (nat \<bar>n\<bar>))"

subsection \<open>\<open>path/filepath\<close> on Unix\<close>

definition Separator :: char where
  "Separator = CHR ''/''"

definition IsPathSeparator :: "char \<Rightarrow> bool" where
  "IsPathSeparator c = (c = CHR ''/'')"

text \<open>
  \<open>filepath.ToSlash\<close> and \<open>filepath.FromSlash\<close> replace the platform's separator; where
  the separator is the slash already they return the path as it is.
\<close>

definition ToSlash :: "string \<Rightarrow> string" where
  "ToSlash path =
     (if Separator = CHR ''/'' then path
      else map (\<lambda>c. if c = Separator then CHR ''/'' else c) path)"

definition FromSlash :: "string \<Rightarrow> string" where
  "FromSlash path =
     (if Separator = CHR ''/'' then path
      else map (\<lambda>c. if c = CHR ''/'' then Separator else c) path)"

text \<open>
  The \<open>..\<close> case of \<open>filepath.Clean\<close> moves the write index \<open>w\<close> back to the last
  separator of the output buffer, not below \<open>dotdot\<close>.
\<close>

function backtrack :: "string \<Rightarrow> nat \<Rightarrow> nat \<Rightarrow> nat" where
  "backtrack buf w dotdot =
     (if dotdot < w \<and> \<not> IsPathSeparator (buf ! w) then backtrack buf (w - 1) dotdot
      else w)"
  by pat_completeness auto
termination
  by (relation "measure (\<lambda>(buf, w, dotdot). w)") auto

declare backtrack.simps [simp del]

text \<open>
  The main loop of \<open>filepath.Clean\<close>. The first argument is \<open>rooted\<close>, the second the
  part of the path not read yet (\<open>path[r:]\<close>), the third the output buffer up to its write
  index together with \<open>dotdot\<close>.
\<close>

function cleanLoop :: "bool \<Rightarrow> string \<Rightarrow> string \<times> nat \<Rightarrow> string \<times> nat" where
  "cleanLoop rooted [] (out, dotdot) = (out, dotdot)"
| "cleanLoop rooted (c # rest) (out, dotdot) =
     (if IsPathSeparator c then cleanLoop rooted rest (out, dotdot)
      else if c = CHR ''.'' \<and> (rest = [] \<or> IsPathSeparator (hd rest))
      then cleanLoop rooted rest (out, dotdot)
      else if c = CHR ''.'' \<and> hd rest = CHR ''.''
                \<and> (tl rest = [] \<or> IsPathSeparator (hd (tl rest)))
      then
        (if dotdot < length out
         then cleanLoop rooted (tl rest)
                (take (backtrack out (length out - 1) dotdot) out, dotdot)
         else if \<not> rooted
         then
           (let out' = (if 0 < length out then out @ [Separator] else out) @ ''..''
            in cleanLoop rooted (tl rest) (out', length out'))
         else cleanLoop rooted (tl rest) (out, dotdot))
      else
        (let out' = (if rooted \<and> length out \<noteq> 1 \<or> \<not> rooted \<and> length out \<noteq> 0
                     then out @ [Separator] else out)
         in cleanLoop rooted (dropWhile (\<lambda>x. \<not> IsPathSeparator x) (c # rest))
              (out' @ takeWhile (\<lambda>x. \<not> IsPathSeparator x) (c # rest), dotdot)))"
  by pat_completeness auto
termination
proof (relation "measure (\<lambda>(rooted, path, st). length path)")
  show "wf (measure (\<lambda>(rooted, path, st). length path))" by simp
next
  fix rooted :: bool and c :: char and rest out :: string and dotdot :: nat and x :: string
  assume "\<not> IsPathSeparator c"
  then have "length (dropWhile (\<lambda>x. \<not> IsPathSeparator x) (c # rest)) \<le> length rest"
    by (simp add: length_dropWhile_le)
  then show "((rooted, dropWhile (\<lambda>x. \<not> IsPathSeparator x) (c # rest),
               x @ takeWhile (\<lambda>x. \<not> IsPathSeparator x) (c # rest), dotdot),
              rooted, c # rest, out, dotdot)
             \<in> measure (\<lambda>(rooted, path, st). length path)"
    by simp
qed auto

declare cleanLoop.simps [simp del]

text \<open>\<open>filepath.Clean\<close> (there is no volume name on Unix).\<close>

definition Clean :: "string \<Rightarrow> string" where
  "Clean path =
     (if path = [] then ''.''
      else
        let rooted = IsPathSeparator (hd path);
            (out, dotdot) =
              (if rooted then cleanLoop rooted (tl path) ([Separator], 1)
               else cleanLoop rooted path ([], 0))
        in FromSlash (if out = [] then ''.'' else out))"

text \<open>\<open>strings.Join\<close>.\<close>

fun JoinStrings :: "string list \<Rightarrow> string \<Rightarrow> string" where
  "JoinStrings [] sep = []"
| "JoinStrings [e] sep = e"
| "JoinStrings (e # es) sep = e @ sep @ JoinStrings es sep"

text \<open>\<open>filepath.Join\<close>: leading empty elements are dropped, the rest is joined and cleaned.\<close>

fun Join :: "string list \<Rightarrow> string" where
  "Join [] = []"
| "Join (e # es) = (if e \<noteq> [] then Clean (JoinStrings (e # es) [Separator]) else Join es)"

section \<open>The directory-listing parser (\<open>internal/parser/parser.go\<close>)\<close>

text \<open>
  A Go \<open>error\<close> value: a message, or an error wrapped by \<open>fmt.Errorf\<close> with \<open>%w\<close> behind
  a prefix.
\<close>

datatype goerror = Err string | Wrap string goerror

fun errorString :: "goerror \<Rightarrow> string" where
  "errorString (Err m) = m"
| "errorString (Wrap prefix e) = prefix @ errorString e"

text \<open>
  What the parser sees of the listing file: \<open>os.Open\<close> fails, or the scanner yields a
  sequence of lines and then stops, with the error \<open>scanner.Err()\<close> reports (none at
  the end of the file; a read error, or a line longer than the scanner's buffer, ends the
  scan with one). A line is what \<open>scanner.Text()\<close> gives: the bytes up to the line end,
  without it.
\<close>

datatype listing = OpenFails goerror | Opened "string list" "goerror option"

text \<open>
  The state of the scanning loop of \<open>ParseVPKDir\<close>: the key set of the map \<open>fnumberSet\<close>,
  the counter \<open>matchedLines\<close> and the messages handed to \<open>log.Printf\<close> so far.
\<close>

record parse_state =
  fnumberSet :: "int set"
  matchedLines :: nat
  logs :: "string list"

definition init_state :: parse_state where
  "init_state = \<lparr>fnumberSet = {}, matchedLines = 0, logs = []\<rparr>"

text \<open>
  The inner loop over \<open>fields[1:]\<close>: the value left in \<open>fnumber\<close> and the warning it
  logged, if any. Both branches under the \<open>fnumber=\<close> test end in \<open>break\<close>.
\<close>

fun extractFnumber :: "string \<Rightarrow> string list \<Rightarrow> int \<times> string list" where
  "extractFnumber line [] = (0, [])"
| "extractFnumber line (field # rest) =
     (if HasPrefix field ''fnumber=''
      then
        (let fnumStr = TrimPrefix field ''fnumber='' in
         case Atoi fnumStr of
           None \<Rightarrow>
             (0, [''Warning: Invalid fnumber '' @ [CHR 0x27] @ fnumStr @ [CHR 0x27]
                    @ '' in line: '' @ line])
         | Some fnum \<Rightarrow> (fnum, []))
      else extractFnumber line rest)"

text \<open>One iteration of the scanning loop, on the line the scanner has just yielded.\<close>

definition parseLine :: "string \<Rightarrow> parse_state \<Rightarrow> string \<Rightarrow> parse_state" where
  "parseLine requiredPrefix st line =
     (if HasPrefix line ''---'' \<or> TrimSpace line = [] then st
      else
        let fields = Fields line in
        if length fields < 5 then st
        else
          let filePath = fields ! 0;
              cleanPath = ToSlash (Clean filePath);
              normalizedPrefix = ToSlash (Clean requiredPrefix)
          in
            if \<not> HasPrefix cleanPath normalizedPrefix then st
            else
              let st1 = st\<lparr>matchedLines := matchedLines st + 1\<rparr>;
                  (fnumber, warning) = extractFnumber line (tl fields);
                  st2 = st1\<lparr>logs := logs st1 @ warning\<rparr>
              in
                if fnumber \<noteq> 0 then st2\<lparr>fnumberSet := insert fnumber (fnumberSet st2)\<rparr>
                else st2\<lparr>logs := logs st2 @ [''No valid fnumber found in line: '' @ line]\<rparr>)"

definition scanLines :: "string \<Rightarrow> string list \<Rightarrow> parse_state" where
  "scanLines requiredPrefix lines = foldl (parseLine requiredPrefix) init_state lines"

text \<open>\<open>ParseVPKDir\<close> up to the conversion of the set into a slice.\<close>

definition ParseVPKDir_scan :: "listing \<Rightarrow> string \<Rightarrow> goerror + parse_state" where
  "ParseVPKDir_scan file requiredPrefix =
     (case file of
        OpenFails e \<Rightarrow> Inl (Wrap ''failed to open VPK Dir file: '' e)
      | Opened lines scanErr \<Rightarrow>
          let st = scanLines requiredPrefix lines in
          (case scanErr of
             Some e \<Rightarrow> Inl (Wrap ''error reading VPK Dir file: '' e)
           | None \<Rightarrow>
               Inr (st\<lparr>logs := logs st
                      @ [''Total matched lines: '' @ fmt_d (int (matchedLines st))]\<rparr>)))"

text \<open>
  A \<open>range\<close> loop over a Go map visits every key once, in an order the language leaves
  open: the slice built by appending the keys is any duplicate-free enumeration of them.
\<close>

definition rangeKeys :: "'a set \<Rightarrow> 'a list \<Rightarrow> bool" where
  "rangeKeys keys xs = (distinct xs \<and> set xs = keys)"

text \<open>
  \<open>ParseVPKDir file requiredPrefix res\<close>: the call may return \<open>res\<close>, the error (left) or
  the slice of fnumbers (right).
\<close>

definition ParseVPKDir :: "listing \<Rightarrow> string \<Rightarrow> goerror + int list \<Rightarrow> bool" where
  "ParseVPKDir file requiredPrefix res =
     (case ParseVPKDir_scan file requiredPrefix of
        Inl e \<Rightarrow> res = Inl e
      | Inr st \<Rightarrow> (case res of Inl e \<Rightarrow> False | Inr fnumbers \<Rightarrow> rangeKeys (fnumberSet st) fnumbers))"

definition vpkName :: "int \<Rightarrow> string" where
  "vpkName fnum = ''pak01_'' @ fmt_03d fnum @ ''.vpk''"

definition vpkPath :: "string \<Rightarrow> int \<Rightarrow> string" where
  "vpkPath baseDir fnum = Join [baseDir, vpkName fnum]"

text \<open>The key set of the map \<open>vpkSet\<close> after the first loop of \<open>MapFNumberToVPK\<close>.\<close>

definition vpkSet :: "int list \<Rightarrow> string \<Rightarrow> string set" where
  "vpkSet fnumbers baseDir =
     foldl (\<lambda>acc fnum. insert (vpkPath baseDir fnum) acc) {} fnumbers"

text \<open>\<open>MapFNumberToVPK fnumbers baseDir vpks\<close>: the call may return the slice \<open>vpks\<close>.\<close>

definition MapFNumberToVPK :: "int list \<Rightarrow> string \<Rightarrow> string list \<Rightarrow> bool" where
  "MapFNumberToVPK fnumbers baseDir vpks = rangeKeys (vpkSet fnumbers baseDir) vpks"

text \<open>The messages \<open>ParseVPKDir\<close> has logged when it returns.\<close>

definition ParseVPKDir_logs :: "listing \<Rightarrow> string \<Rightarrow> string list" where
  "ParseVPKDir_logs file requiredPrefix =
     (case file of
        OpenFails e \<Rightarrow> []
      | Opened lines scanErr \<Rightarrow>
          let st = scanLines requiredPrefix lines in
          (case scanErr of
             Some e \<Rightarrow> logs st
           | None \<Rightarrow>
               logs st @ [''Total matched lines: '' @ fmt_d (int (matchedLines st))]))"

section \<open>External commands (\<open>internal/cmdrunner\<close>)\<close>

text \<open>
  An external command as it is started: the program, its arguments and the deadline of
  the context it runs under, in seconds (\<open>None\<close>: it is started with \<open>exec.Command\<close> or
  under a context without deadline).
\<close>

record invocation =
  prog :: string
  args :: "string list"
  deadline :: "nat option"

text \<open>What a run does that can be seen from outside, in the order it does it.\<close>

datatype event =
    EnsureTools
  | Invoke invocation
  | Glob string
  | Stat string
  | ReadFile string
  | WriteFile string string
  | CreateTemp string
  | RenameOutputs
  | WalkStatic
  | Log string
  | Fatal string

text \<open>
  What \<open>Run\<close> observes of the process: the contents of the two buffers when \<open>cmd.Run\<close>
  returns, the error \<open>cmd.Run\<close> returns and the value of \<open>ctx.Err()\<close> afterwards.
\<close>

datatype ctx_err = NoCtxErr | Canceled | DeadlineExceeded

record proc_outcome =
  stdoutBuf :: string
  stderrBuf :: string
  runErr :: "goerror option"
  ctxErr :: ctx_err

record CommandResult =
  Stdout :: string
  Stderr :: string
  Error :: "goerror option"

text \<open>\<open>DefaultRunner.Run\<close>, under a context with the given deadline.\<close>

definition Run ::
  "nat option \<Rightarrow> string \<Rightarrow> string list \<Rightarrow> proc_outcome \<Rightarrow> CommandResult \<times> event list" where
  "Run ctxDeadline name arguments p =
     (let stdoutStr = stdoutBuf p;
          stderrStr = stderrBuf p;
          ev = [Log (''Executing command: '' @ name @ '' '' @ JoinStrings arguments '' ''),
                Invoke \<lparr>prog = name, args = arguments, deadline = ctxDeadline\<rparr>]
               @ (if stdoutStr \<noteq> [] then [Log (''Command stdout: '' @ stdoutStr)] else [])
               @ (if stderrStr \<noteq> [] then [Log (''Command stderr: '' @ stderrStr)] else [])
      in
        case runErr p of
          Some err \<Rightarrow>
            if ctxErr p = DeadlineExceeded
            then (\<lparr>Stdout = stdoutStr, Stderr = stderrStr,
                    Error = Some (Wrap ''command timed out: '' err)\<rparr>, ev)
            else (\<lparr>Stdout = stdoutStr, Stderr = stderrStr,
                    Error = Some (Wrap ''command execution failed: '' err)\<rparr>, ev)
        | None \<Rightarrow> (\<lparr>Stdout = stdoutStr, Stderr = stderrStr, Error = None\<rparr>, ev))"

text \<open>\<open>RunCommand\<close>: \<open>Run\<close> under \<open>context.WithTimeout\<close> of 60 seconds.\<close>

definition RunCommand ::
  "string \<Rightarrow> string list \<Rightarrow> proc_outcome \<Rightarrow> CommandResult \<times> event list" where
  "RunCommand name arguments p = Run (Some 60) name arguments p"

text \<open>
  \<open>PipeOutput\<close>: the command is built with \<open>exec.Command\<close>, without a context. The
  lines the two readers log while the process runs are not part of the model.
\<close>

datatype pipe_outcome =
    StdoutPipeFails goerror
  | StderrPipeFails goerror
  | StartFails goerror
  | WaitFails goerror
  | Exited

definition PipeOutput ::
  "string \<Rightarrow> string list \<Rightarrow> pipe_outcome \<Rightarrow> goerror option \<times> event list" where
  "PipeOutput name arguments p =
     (let started = [Invoke \<lparr>prog = name, args = arguments, deadline = None\<rparr>] in
      case p of
        StdoutPipeFails e \<Rightarrow> (Some (Wrap ''failed to get stdout pipe: '' e), [])
      | StderrPipeFails e \<Rightarrow> (Some (Wrap ''failed to get stderr pipe: '' e), [])
      | StartFails e \<Rightarrow> (Some (Wrap ''failed to start command: '' e), started)
      | WaitFails e \<Rightarrow> (Some (Wrap ''command execution failed: '' e), started)
      | Exited \<Rightarrow> (None, started))"

section \<open>\<open>GenerateVPKList\<close>\<close>

text \<open>
  What \<open>GenerateVPKList\<close> meets outside the program: the outcome of \<open>os.CreateTemp\<close> (the
  name of the temporary file), the error of the listing command, the listing the
  command left in the temporary file, the error of \<open>os.Create\<close> on the output file and
  the first \<open>WriteString\<close> that fails (its index and error), if any.
\<close>

record gen_env =
  manifestTemp :: "goerror + string"
  vpkDirRun :: "goerror option"
  vpkDirFile :: listing
  createError :: "goerror option"
  writeFailsAt :: "(nat \<times> goerror) option"

definition generateVPKDirectory :: "gen_env \<Rightarrow> string \<Rightarrow> (goerror + string) \<times> event list" where
  "generateVPKDirectory env vpkDir =
     (case manifestTemp env of
        Inl e \<Rightarrow>
          (Inl (Wrap ''failed to create temporary manifest file: '' e),
           [CreateTemp ''vpkdir_*.txt''])
      | Inr tempName \<Rightarrow>
          (let ev = [CreateTemp ''vpkdir_*.txt'',
                     Log (''Running Source2Viewer-CLI to generate vpk dir at '' @ tempName),
                     Invoke \<lparr>prog = ''tools/Source2Viewer-CLI'',
                             args = [''-i'', vpkDir, ''--vpk_dir''], deadline = None\<rparr>]
           in
             (case vpkDirRun env of
                Some e \<Rightarrow> (Inl (Wrap ''error running Source2Viewer-CLI: '' e), ev)
              | None \<Rightarrow>
                  (Inr tempName,
                   ev @ [Log (''vpk dir generated successfully at '' @ tempName)]))))"

text \<open>
  \<open>WriteVPKList\<close>: \<open>os.Create\<close> truncates the output file, then one line is written for each
  path, up to the first write that fails.
\<close>

definition vpkListText :: "string list \<Rightarrow> string" where
  "vpkListText vpks = concat (map (\<lambda>vpk. vpk @ [CHR 0x0A]) vpks)"

definition WriteVPKList :: "gen_env \<Rightarrow> string list \<Rightarrow> string \<Rightarrow> goerror option \<times> event list" where
  "WriteVPKList env vpks outFile =
     (case createError env of
        Some e \<Rightarrow> (Some (Wrap ''failed to create output file: '' e), [])
      | None \<Rightarrow>
          (case writeFailsAt env of
             None \<Rightarrow> (None, [WriteFile outFile (vpkListText vpks)])
           | Some (k, e) \<Rightarrow>
               if k < length vpks
               then (Some (Wrap ''failed to write to output file: '' e),
                     [WriteFile outFile (vpkListText (take k vpks))])
               else (None, [WriteFile outFile (vpkListText vpks)])))"

text \<open>
  \<open>GenerateVPKList env vpkDir requiredPrefix vpkBaseDir outFile (err, ev)\<close>: the call may
  return \<open>err\<close>, having done \<open>ev\<close>. One rule for each way through the function.
\<close>

inductive GenerateVPKList ::
  "gen_env \<Rightarrow> string \<Rightarrow> string \<Rightarrow> string \<Rightarrow> string \<Rightarrow> goerror option \<times> event list \<Rightarrow> bool"
  where
  manifest_error:
    "generateVPKDirectory env vpkDir = (Inl e, ev) \<Longrightarrow>
     GenerateVPKList env vpkDir requiredPrefix vpkBaseDir outFile
       (Some (Wrap ''error generating manifest: '' e), ev)"
| parse_error:
    "generateVPKDirectory env vpkDir = (Inr manifestPath, ev) \<Longrightarrow>
     ParseVPKDir (vpkDirFile env) requiredPrefix (Inl e) \<Longrightarrow>
     GenerateVPKList env vpkDir requiredPrefix vpkBaseDir outFile
       (Some (Wrap ''error parsing manifest: '' e),
        ev @ map Log (ParseVPKDir_logs (vpkDirFile env) requiredPrefix))"
| no_fnumbers:
    "generateVPKDirectory env vpkDir = (Inr manifestPath, ev) \<Longrightarrow>
     ParseVPKDir (vpkDirFile env) requiredPrefix (Inr fnumbers) \<Longrightarrow>
     length fnumbers = 0 \<Longrightarrow>
     GenerateVPKList env vpkDir requiredPrefix vpkBaseDir outFile
       (None,
        ev @ map Log (ParseVPKDir_logs (vpkDirFile env) requiredPrefix)
           @ [Log ''No matching image files found in the manifest.''])"
| no_vpks:
    "generateVPKDirectory env vpkDir = (Inr manifestPath, ev) \<Longrightarrow>
     ParseVPKDir (vpkDirFile env) requiredPrefix (Inr fnumbers) \<Longrightarrow>
     length fnumbers \<noteq> 0 \<Longrightarrow>
     MapFNumberToVPK fnumbers vpkBaseDir vpks \<Longrightarrow> length vpks = 0 \<Longrightarrow>
     GenerateVPKList env vpkDir requiredPrefix vpkBaseDir outFile
       (None,
        ev @ map Log (ParseVPKDir_logs (vpkDirFile env) requiredPrefix)
           @ [Log ''No VPKs mapped from the extracted fnumbers.''])"
| write_error:
    "generateVPKDirectory env vpkDir = (Inr manifestPath, ev) \<Longrightarrow>
     ParseVPKDir (vpkDirFile env) requiredPrefix (Inr fnumbers) \<Longrightarrow>
     length fnumbers \<noteq> 0 \<Longrightarrow>
     MapFNumberToVPK fnumbers vpkBaseDir vpks \<Longrightarrow> length vpks \<noteq> 0 \<Longrightarrow>
     WriteVPKList env vpks outFile = (Some e, wev) \<Longrightarrow>
     GenerateVPKList env vpkDir requiredPrefix vpkBaseDir outFile
       (Some (Wrap ''error writing VPK list: '' e),
        ev @ map Log (ParseVPKDir_logs (vpkDirFile env) requiredPrefix) @ wev)"
| written:
    "generateVPKDirectory env vpkDir = (Inr manifestPath, ev) \<Longrightarrow>
     ParseVPKDir (vpkDirFile env) requiredPrefix (Inr fnumbers) \<Longrightarrow>
     length fnumbers \<noteq> 0 \<Longrightarrow>
     MapFNumberToVPK fnumbers vpkBaseDir vpks \<Longrightarrow> length vpks \<noteq> 0 \<Longrightarrow>
     WriteVPKList env vpks outFile = (None, wev) \<Longrightarrow>
     GenerateVPKList env vpkDir requiredPrefix vpkBaseDir outFile
       (None, ev @ map Log (ParseVPKDir_logs (vpkDirFile env) requiredPrefix) @ wev)"

section \<open>The orchestrator (\<open>cmd/main.go\<close>)\<close>

definition VPKDir :: string where
  "VPKDir = ''data/game/csgo/pak01_dir.vpk''"

definition ImageDir :: string where
  "ImageDir = ''panorama/images/econ''"

definition BaseDir :: string where
  "BaseDir = ''game/csgo''"

text \<open>\<open>strings.Split\<close> at a one-byte separator.\<close>

fun Split :: "string \<Rightarrow> char \<Rightarrow> string list" where
  "Split [] sep = [[]]"
| "Split (c # cs) sep =
     (if c = sep then [] # Split cs sep
      else (case Split cs sep of [] \<Rightarrow> [[c]] | part # parts \<Rightarrow> (c # part) # parts))"

text \<open>The outcomes of \<open>os.Stat\<close> that \<open>fileExists\<close> tells apart.\<close>

datatype stat = NotExist | StatFails | IsDir | Regular

definition fileExists :: "stat \<Rightarrow> bool" where
  "fileExists st = (case st of NotExist \<Rightarrow> False | StatFails \<Rightarrow> False | IsDir \<Rightarrow> False
                    | Regular \<Rightarrow> True)"

text \<open>
  What a run of \<open>main\<close> meets outside the program, stage by stage: the results of the
  calls it makes to the operating system and of the commands it starts.
\<close>

record main_env =
  ensureTools :: "goerror option"
  manifestOnly :: proc_outcome
  globResult :: "goerror + string list"
  idStat :: stat
  idRead :: "goerror + string"
  idWrite :: "goerror option"
  dirTemp :: "goerror + string"
  dirTempWrite :: "goerror option"
  dirTempFlush :: "goerror option"
  dirFetch :: proc_outcome
  listTemp :: "goerror + string"
  segmentFetch :: pipe_outcome
  extraction :: pipe_outcome
  renameWalk :: "goerror option"
  cdnRead :: "goerror + string"
  cdnUpdated :: string
  cdnWrite :: "goerror option"

definition manifestOnlyArgs :: "string list" where
  "manifestOnlyArgs = [''-app'', ''730'', ''-depot'', ''2347770'', ''-dir'', ''data'',
                       ''-manifest-only'']"

definition filelistArgs :: "string \<Rightarrow> string list" where
  "filelistArgs name = [''-app'', ''730'', ''-depot'', ''2347770'', ''-dir'', ''data'',
                        ''-filelist'', name]"

definition extractArgs :: "string list" where
  "extractArgs = [''-i'', VPKDir, ''-o'', ''static'', ''-d'', ''--vpk_filepath'', ImageDir]"

text \<open>
  Stages 0 to 3 of \<open>main\<close>, up to the comparison of the two identities: what the run has
  done, and \<open>trackedID\<close> and \<open>newManifestID\<close> when it gets that far (\<open>None\<close>: it has ended in
  \<open>log.Fatalf\<close>).
\<close>

definition beforeGate :: "main_env \<Rightarrow> event list \<times> (string \<times> string) option" where
  "beforeGate env =
     (case ensureTools env of
        Some e \<Rightarrow> ([EnsureTools, Fatal (''Failed to ensure tools: '' @ errorString e)], None)
      | None \<Rightarrow>
          (let (result, rev) = RunCommand ''tools/DepotDownloader'' manifestOnlyArgs
                                 (manifestOnly env);
               ev1 = [EnsureTools, Log ''All dependencies are satisfied.''] @ rev
           in
             (case Error result of
                Some e \<Rightarrow>
                  (ev1 @ [Fatal (''DepotDownloader encountered an error: '' @ errorString e)],
                   None)
              | None \<Rightarrow>
                  (let ev2 = ev1 @ [Log ''Collecting Manifest...'',
                                    Log ''Finished collecting manifest.'',
                                    Glob ''data/manifest_*'']
                   in
                     (case globResult env of
                        Inl e \<Rightarrow>
                          (ev2 @ [Fatal (''Failed to find manifest file: '' @ errorString e)],
                           None)
                      | Inr matches \<Rightarrow>
                          if length matches = 0
                          then (ev2 @ [Fatal ''No manifest file found in ./data/''], None)
                          else
                            (let manifestFile = matches ! 0;
                                 parts = Split manifestFile (CHR ''_'')
                             in
                               if length parts < 3
                               then (ev2 @ [Fatal (''Unexpected manifest file format: ''
                                                     @ manifestFile)], None)
                               else
                                 (let newManifestID = TrimSuffix (parts ! 2) ''.txt'';
                                      ev3 = ev2 @ [Stat ''manifest_id.txt'']
                                  in
                                    if fileExists (idStat env)
                                    then
                                      (case idRead env of
                                         Inl e \<Rightarrow>
                                           (ev3 @ [ReadFile ''manifest_id.txt'',
                                                   Fatal (''Could not read manifest_id.txt: ''
                                                            @ errorString e)], None)
                                       | Inr data \<Rightarrow>
                                           (ev3 @ [ReadFile ''manifest_id.txt''],
                                            Some (TrimSpace data, newManifestID)))
                                    else (ev3, Some ([], newManifestID)))))))))"

text \<open>
  Stages 7 and 8 and the two closing steps of \<open>main\<close>, after \<open>GenerateVPKList\<close> has
  returned without error.
\<close>

definition afterList :: "main_env \<Rightarrow> string \<Rightarrow> event list" where
  "afterList env fileListName =
     (let (downloadResult, dev) = PipeOutput ''tools/DepotDownloader''
                                    (filelistArgs fileListName) (segmentFetch env)
      in
        (case downloadResult of
           Some e \<Rightarrow> dev @ [Fatal (''DepotDownloader encountered an error: '' @ errorString e)]
         | None \<Rightarrow>
             (let (extractResult, xev) = PipeOutput ''tools/Source2Viewer-CLI'' extractArgs
                                           (extraction env);
                  ev1 = dev @ [Log ''Downloading files...'', Log ''Finished downloading files.'']
                          @ xev
              in
                (case extractResult of
                   Some e \<Rightarrow>
                     ev1 @ [Fatal (''Source2Viewer-CLI encountered an error: '' @ errorString e)]
                 | None \<Rightarrow>
                     (let ev2 = ev1 @ [Log ''Extracting files...'', Log ''Renaming files...'',
                                       RenameOutputs]
                      in
                        (case renameWalk env of
                           Some e \<Rightarrow>
                             ev2 @ [Fatal (''Error walking the path: '' @ errorString e)]
                         | None \<Rightarrow>
                             (let ev3 = ev2 @ [Log ''Adding images to CDN list...'',
                                               ReadFile ''cdn.json'']
                              in
                                (case cdnRead env of
                                   Inl e \<Rightarrow>
                                     ev3 @ [Fatal (''Error reading cdn.json: '' @ errorString e)]
                                 | Inr data \<Rightarrow>
                                     (let ev4 = ev3 @ [WalkStatic,
                                                       WriteFile ''cdn.json'' (cdnUpdated env)]
                                      in
                                        (case cdnWrite env of
                                           Some e \<Rightarrow>
                                             ev4 @ [Fatal (''Error writing cdn.json: ''
                                                             @ errorString e)]
                                         | None \<Rightarrow> ev4))))))))))"

text \<open>
  Stages 4 to 6 of \<open>main\<close>, from the point where the identity is found new or changed.
  \<open>gen\<close> is what the call of \<open>GenerateVPKList\<close> gives: the error it returns and what it
  has done.
\<close>

definition afterGate :: "main_env \<Rightarrow> goerror option \<times> event list \<Rightarrow> string \<Rightarrow> event list" where
  "afterGate env gen newManifestID =
     (let ev4 = [Log (''Manifest is new or changed. New ID: '' @ newManifestID),
                 WriteFile ''manifest_id.txt'' newManifestID]
      in
        (case idWrite env of
           Some e \<Rightarrow> ev4 @ [Fatal (''Could not write to manifest_id.txt: '' @ errorString e)]
         | None \<Rightarrow>
             (let ev5 = ev4 @ [Log (''New manifest ID '' @ newManifestID @ '' has been saved.''),
                               CreateTemp ''dir-file_*.txt'']
              in
                (case dirTemp env of
                   Inl e \<Rightarrow> ev5 @ [Fatal (''Error creating temporary file: '' @ errorString e)]
                 | Inr dirFileName \<Rightarrow>
                     (let ev6 = ev5 @ [WriteFile dirFileName
                                         (''game/csgo/pak01_dir.vpk'' @ [CHR 0x0A])]
                      in
                        (case dirTempWrite env of
                           Some e \<Rightarrow>
                             ev6 @ [Fatal (''Error writing to dir-file.txt: '' @ errorString e)]
                         | None \<Rightarrow>
                             (case dirTempFlush env of
                                Some e \<Rightarrow>
                                  ev6 @ [Fatal (''Error flushing to dir-file.txt: ''
                                                  @ errorString e)]
                              | None \<Rightarrow>
                                  (let (dirResult, rev) =
                                         RunCommand ''tools/DepotDownloader''
                                           (filelistArgs dirFileName) (dirFetch env);
                                       ev7 = ev6 @ [Log ''Collecting vpk_dir file...''] @ rev
                                   in
                                     (case Error dirResult of
                                        Some e \<Rightarrow>
                                          ev7 @ [Fatal (''DepotDownloader encountered an error ''
                                                   @ ''while processing filelist: ''
                                                   @ errorString e)]
                                      | None \<Rightarrow>
                                          (let ev8 = ev7 @ [CreateTemp ''filelist_*.txt''] in
                                           (case listTemp env of
                                              Inl e \<Rightarrow>
                                                ev8 @ [Fatal (''Error creating temporary file: ''
                                                                @ errorString e)]
                                            | Inr fileListName \<Rightarrow>
                                                (case fst gen of
                                                   Some e \<Rightarrow>
                                                     ev8 @ snd gen
                                                       @ [Fatal (''Failed to generate VPK list: ''
                                                                   @ errorString e)]
                                                 | None \<Rightarrow>
                                                     ev8 @ snd gen
                                                       @ afterList env fileListName))))))))))))"

text \<open>
  \<open>main\<close>: what the run does, in order. A run that ends in \<open>log.Fatalf\<close> ends with the
  event \<open>Fatal\<close>.
\<close>

definition main :: "main_env \<Rightarrow> goerror option \<times> event list \<Rightarrow> event list" where
  "main env gen =
     (case beforeGate env of
        (ev, None) \<Rightarrow> ev
      | (ev, Some (trackedID, newManifestID)) \<Rightarrow>
          if trackedID = newManifestID \<and> trackedID \<noteq> []
          then ev @ [Log ''Manifest ID matches the current ID. Exiting.'']
          else ev @ afterGate env gen newManifestID)"

section \<open>Notions used in the statements\<close>

text \<open>The six ASCII bytes that \<open>unicode.IsSpace\<close> accepts.\<close>

definition asciiSpace :: "char \<Rightarrow> bool" where
  "asciiSpace c =
     (c = CHR 0x09 \<or> c = CHR 0x0A \<or> c = CHR 0x0B \<or> c = CHR 0x0C \<or> c = CHR 0x0D \<or> c = CHR 0x20)"

text \<open>The line is left by one of the first two \<open>continue\<close> statements of the loop.\<close>

definition skipped :: "string \<Rightarrow> bool" where
  "skipped line = (HasPrefix line ''---'' \<or> TrimSpace line = [] \<or> length (Fields line) < 5)"

text \<open>
  The prefix test of the loop: the comparison of \<open>cleanPath\<close> with \<open>normalizedPrefix\<close>.
\<close>

definition prefixMatch :: "string \<Rightarrow> string \<Rightarrow> bool" where
  "prefixMatch requiredPrefix filePath =
     HasPrefix (ToSlash (Clean filePath)) (ToSlash (Clean requiredPrefix))"

text \<open>
  A test by path components: the components of \<open>dir\<close> are the first components of
  \<open>path\<close>.
\<close>

definition wholeDirAncestor :: "string \<Rightarrow> string \<Rightarrow> bool" where
  "wholeDirAncestor dir path =
     (let ds = Split dir (CHR ''/''); cs = Split path (CHR ''/'')
      in length ds \<le> length cs \<and> take (length ds) cs = ds)"

text \<open>
  The listing of the round-trip example, each entry with the fields the listing tool
  prints around \<open>fnumber\<close>, and an environment in which every step of
  \<open>GenerateVPKList\<close> succeeds on it.
\<close>

definition roundtrip_listing :: listing where
  "roundtrip_listing =
     Opened [''a/b/img1.vtex crc=1 metadatasz=0 fnumber=44 ofs=0 sz=10'',
             ''a/b/img2.vtex crc=2 metadatasz=0 fnumber=44 ofs=10 sz=10'',
             ''c/d/x.vtex crc=3 metadatasz=0 fnumber=7 ofs=0 sz=10''] None"

definition roundtrip_env :: gen_env where
  "roundtrip_env =
     \<lparr>manifestTemp = Inr ''/tmp/vpkdir_1.txt'', vpkDirRun = None,
      vpkDirFile = roundtrip_listing, createError = None, writeFailsAt = None\<rparr>"

text \<open>The line gets past the three \<open>continue\<close> statements, to the search for its fnumber.\<close>

definition reachesExtraction :: "string \<Rightarrow> string \<Rightarrow> bool" where
  "reachesExtraction requiredPrefix line =
     (\<not> skipped line \<and> prefixMatch requiredPrefix (Fields line ! 0))"

text \<open>The warning logged for a value that \<open>strconv.Atoi\<close> rejects.\<close>

definition invalidWarning :: "string \<Rightarrow> string \<Rightarrow> string" where
  "invalidWarning fnumStr line =
     ''Warning: Invalid fnumber '' @ [CHR 0x27] @ fnumStr @ [CHR 0x27] @ '' in line: '' @ line"

text \<open>The commands a run has started, in order.\<close>

fun invocations :: "event list \<Rightarrow> invocation list" where
  "invocations [] = []"
| "invocations (Invoke i # es) = i # invocations es"
| "invocations (e # es) = invocations es"

text \<open>The files a run has written with \<open>WriteFile\<close>, in order, each with its new content.\<close>

fun writes :: "event list \<Rightarrow> (string \<times> string) list" where
  "writes [] = []"
| "writes (WriteFile name content # es) = (name, content) # writes es"
| "writes (e # es) = writes es"

text \<open>The program and the deadline of each command a run has started.\<close>

definition kinds :: "event list \<Rightarrow> (string \<times> nat option) list" where
  "kinds ev = map (\<lambda>i. (prog i, deadline i)) (invocations ev)"

text \<open>\<open>xs\<close> is an initial segment of \<open>ys\<close>.\<close>

definition startOf :: "'a list \<Rightarrow> 'a list \<Rightarrow> bool" where
  "startOf xs ys = (take (length xs) ys = xs)"

text \<open>
  Environments for the examples: a process that succeeds without output; a first run, in
  which every stage succeeds and no identity file exists; the run after it, which finds
  the identity the first one stored; and a listing with one entry under the image
  directory, with the result \<open>GenerateVPKList\<close> gives on it.
\<close>

definition quiet :: proc_outcome where
  "quiet = \<lparr>stdoutBuf = [], stderrBuf = [], runErr = None, ctxErr = NoCtxErr\<rparr>"

definition first_run_env :: main_env where
  "first_run_env =
     \<lparr>ensureTools = None, manifestOnly = quiet,
      globResult = Inr [''data/manifest_2347770_5002689339188222421.txt''],
      idStat = NotExist, idRead = Inl (Err ''no such file''), idWrite = None,
      dirTemp = Inr ''/tmp/dir-file_1.txt'', dirTempWrite = None, dirTempFlush = None,
      dirFetch = quiet, listTemp = Inr ''/tmp/filelist_1.txt'',
      segmentFetch = Exited, extraction = Exited, renameWalk = None,
      cdnRead = Inr ''{}'', cdnUpdated = ''{}'', cdnWrite = None\<rparr>"

definition second_run_env :: main_env where
  "second_run_env =
     first_run_env\<lparr>idStat := Regular, idRead := Inr (''5002689339188222421'' @ [CHR 0x0A])\<rparr>"

definition econ_env :: gen_env where
  "econ_env =
     \<lparr>manifestTemp = Inr ''/tmp/vpkdir_1.txt'', vpkDirRun = None,
      vpkDirFile =
        Opened [''panorama/images/econ/weapons/ak47.vtex_c crc=1 metadatasz=0 fnumber=44 ofs=0''] None,
      createError = None, writeFailsAt = None\<rparr>"

definition econ_gen :: "goerror option \<times> event list" where
  "econ_gen =
     (None,
      [CreateTemp ''vpkdir_*.txt'',
       Log ''Running Source2Viewer-CLI to generate vpk dir at /tmp/vpkdir_1.txt'',
       Invoke \<lparr>prog = ''tools/Source2Viewer-CLI'',
               args = [''-i'', ''data/game/csgo/pak01_dir.vpk'', ''--vpk_dir''],
               deadline = None\<rparr>,
       Log ''vpk dir generated successfully at /tmp/vpkdir_1.txt'',
       Log ''Total matched lines: 1'',
       WriteFile ''/tmp/filelist_1.txt'' (''game/csgo/pak01_044.vpk'' @ [CHR 0x0A])])"

text \<open>The command of stage 1, as \<open>RunCommand\<close> starts it.\<close>

definition manifestFetch :: invocation where
  "manifestFetch = \<lparr>prog = ''tools/DepotDownloader'', args = manifestOnlyArgs, deadline = Some 60\<rparr>"

section \<open>Skipped lines\<close>

lemma asciiSpace_decode:
  "asciiSpace c \<Longrightarrow>
   IsSpace (fst (DecodeRuneInString (c # s))) \<and> snd (DecodeRuneInString (c # s)) = 1"
  by (auto simp: asciiSpace_def byteval_def IsSpace_def)

lemma TrimLeftSpace_ascii: "list_all asciiSpace s \<Longrightarrow> TrimLeftSpace s = []"
proof (induction s)
  case Nil
  then show ?case by (simp add: TrimLeftSpace.simps)
next
  case (Cons c s)
  then have "IsSpace (fst (DecodeRuneInString (c # s)))" "snd (DecodeRuneInString (c # s)) = 1"
    using asciiSpace_decode [of c s] by auto
  with Cons show ?case
    by (subst TrimLeftSpace.simps) (simp add: case_prod_beta del: DecodeRuneInString.simps)
qed

lemma TrimSpace_ascii: "list_all asciiSpace s \<Longrightarrow> TrimSpace s = []"
  by (simp add: TrimSpace_def TrimLeftSpace_ascii TrimRightSpace_def lastIndexNotSpace.simps)

lemma parseLine_skip: "skipped line \<Longrightarrow> parseLine p st line = st"
  by (auto simp: parseLine_def skipped_def Let_def)

lemma scanLines_skip:
  assumes "skipped line"
  shows "scanLines p (pre @ line # post) = scanLines p (pre @ post)"
  using parseLine_skip [OF assms] by (simp add: scanLines_def)

text \<open>
  Claim C1. A line the scanner yields that consists of ASCII white space only, or that
  \<open>strings.TrimSpace\<close> empties, or that begins with \<open>---\<close>, or that has fewer than five
  fields, contributes nothing: wherever it stands in the listing, \<open>ParseVPKDir\<close> computes
  the same state, may return the same results and logs the same messages as on the
  listing without the line.
\<close>

theorem C1_skipped_line_contributes_nothing:
  assumes "list_all asciiSpace line \<or> TrimSpace line = [] \<or> HasPrefix line ''---''
           \<or> length (Fields line) < 5"
  shows "ParseVPKDir_scan (Opened (pre @ line # post) scanErr) p
           = ParseVPKDir_scan (Opened (pre @ post) scanErr) p
       \<and> (\<forall>res. ParseVPKDir (Opened (pre @ line # post) scanErr) p res
                 = ParseVPKDir (Opened (pre @ post) scanErr) p res)
       \<and> ParseVPKDir_logs (Opened (pre @ line # post) scanErr) p
           = ParseVPKDir_logs (Opened (pre @ post) scanErr) p"
proof -
  from assms have "skipped line"
    using TrimSpace_ascii [of line] by (auto simp: skipped_def)
  then have "scanLines p (pre @ line # post) = scanLines p (pre @ post)"
    by (rule scanLines_skip)
  then show ?thesis
    by (simp add: ParseVPKDir_scan_def ParseVPKDir_def ParseVPKDir_logs_def)
qed

text \<open>
  The theorem at a line of four fields that carries an \<open>fnumber\<close>: the listing gives
  \<open>{44}\<close> with it as without it.
\<close>

theorem C1_witness:
  "length (Fields ''a/b/img9.vtex crc=1 fnumber=9 sz=3'') < 5
   \<and> ParseVPKDir_scan
        (Opened ([''a/b/img1.vtex crc=1 metadatasz=0 fnumber=44 ofs=0'']
                  @ ''a/b/img9.vtex crc=1 fnumber=9 sz=3'' # [''--- end ---'']) None) ''a/b''
       = ParseVPKDir_scan
           (Opened ([''a/b/img1.vtex crc=1 metadatasz=0 fnumber=44 ofs=0''] @ [''--- end ---''])
              None) ''a/b''
   \<and> fnumberSet (scanLines ''a/b''
         ([''a/b/img1.vtex crc=1 metadatasz=0 fnumber=44 ofs=0'']
            @ ''a/b/img9.vtex crc=1 fnumber=9 sz=3'' # [''--- end ---''])) = {44}"
proof -
  have h: "length (Fields ''a/b/img9.vtex crc=1 fnumber=9 sz=3'') < 5"
    by code_simp
  have s: "fnumberSet (scanLines ''a/b''
         ([''a/b/img1.vtex crc=1 metadatasz=0 fnumber=44 ofs=0'']
            @ ''a/b/img9.vtex crc=1 fnumber=9 sz=3'' # [''--- end ---''])) = {44}"
    by code_simp
  from h have "list_all asciiSpace ''a/b/img9.vtex crc=1 fnumber=9 sz=3''
      \<or> TrimSpace ''a/b/img9.vtex crc=1 fnumber=9 sz=3'' = []
      \<or> HasPrefix ''a/b/img9.vtex crc=1 fnumber=9 sz=3'' ''---''
      \<or> length (Fields ''a/b/img9.vtex crc=1 fnumber=9 sz=3'') < 5"
    by blast
  from C1_skipped_line_contributes_nothing [OF this] h s show ?thesis
    by blast
qed

section \<open>Results on concrete listings\<close>

lemma rangeKeys_singleton: "rangeKeys {x} xs = (xs = [x])"
proof
  assume "rangeKeys {x} xs"
  then have d: "distinct xs" and s: "set xs = {x}" by (simp_all add: rangeKeys_def)
  from d have "length xs = card (set xs)" by (simp add: distinct_card)
  with s have "length xs = 1" by simp
  with s show "xs = [x]" by (cases xs) auto
qed (simp add: rangeKeys_def)

lemma rangeKeys_empty: "rangeKeys {} xs = (xs = [])"
  by (auto simp: rangeKeys_def)

lemma ParseVPKDir_singleton:
  assumes "ParseVPKDir_scan file p = Inr st" "fnumberSet st = {n}"
  shows "ParseVPKDir file p res = (res = Inr [n])"
  using assms by (cases res) (simp_all add: ParseVPKDir_def rangeKeys_singleton)

lemma bc_scan:
  "ParseVPKDir_scan (Opened [''a/bc/x.vtex crc=1 metadatasz=0 fnumber=9 ofs=0''] None) ''a/b''
     = Inr \<lparr>fnumberSet = {9}, matchedLines = 1, logs = [''Total matched lines: 1'']\<rparr>"
  by code_simp

text \<open>
  Claim C10. The prefix filter compares the cleaned strings byte by byte: with the
  prefix \<open>a/b\<close> the entry \<open>a/bc/x.vtex\<close> is matched, though \<open>a/b\<close> is not a directory
  above it, and its fnumber is returned.
\<close>

theorem C10_prefix_test_is_not_component_wise:
  "prefixMatch ''a/b'' ''a/bc/x.vtex''
   \<and> \<not> wholeDirAncestor (ToSlash (Clean ''a/b'')) (ToSlash (Clean ''a/bc/x.vtex''))
   \<and> (\<forall>res. ParseVPKDir
               (Opened [''a/bc/x.vtex crc=1 metadatasz=0 fnumber=9 ofs=0''] None) ''a/b'' res
             = (res = Inr [9]))"
proof -
  have "prefixMatch ''a/b'' ''a/bc/x.vtex''" by code_simp
  moreover have "\<not> wholeDirAncestor (ToSlash (Clean ''a/b'')) (ToSlash (Clean ''a/bc/x.vtex''))"
    by code_simp
  moreover have "ParseVPKDir
               (Opened [''a/bc/x.vtex crc=1 metadatasz=0 fnumber=9 ofs=0''] None) ''a/b'' res
             = (res = Inr [9])" for res
    by (rule ParseVPKDir_singleton [OF bc_scan]) simp
  ultimately show ?thesis by blast
qed

lemma roundtrip_scan:
  "ParseVPKDir_scan roundtrip_listing ''a/b''
     = Inr \<lparr>fnumberSet = {44}, matchedLines = 2, logs = [''Total matched lines: 2'']\<rparr>"
  by code_simp

lemma roundtrip_logs: "ParseVPKDir_logs roundtrip_listing ''a/b'' = [''Total matched lines: 2'']"
  by code_simp

lemma roundtrip_vpkSet: "vpkSet [44] ''base'' = {''base/pak01_044.vpk''}"
  by code_simp

lemma roundtrip_parse: "ParseVPKDir roundtrip_listing ''a/b'' res = (res = Inr [44])"
  by (rule ParseVPKDir_singleton [OF roundtrip_scan]) simp

lemma roundtrip_map: "MapFNumberToVPK [44] ''base'' vpks = (vpks = [''base/pak01_044.vpk''])"
  by (simp add: MapFNumberToVPK_def roundtrip_vpkSet rangeKeys_singleton)

lemma roundtrip_dir:
  "generateVPKDirectory roundtrip_env vpkDir =
     (Inr ''/tmp/vpkdir_1.txt'',
      [CreateTemp ''vpkdir_*.txt'',
       Log ''Running Source2Viewer-CLI to generate vpk dir at /tmp/vpkdir_1.txt'',
       Invoke \<lparr>prog = ''tools/Source2Viewer-CLI'', args = [''-i'', vpkDir, ''--vpk_dir''],
               deadline = None\<rparr>,
       Log ''vpk dir generated successfully at /tmp/vpkdir_1.txt''])"
  by (simp add: generateVPKDirectory_def roundtrip_env_def)

lemma roundtrip_write:
  "WriteVPKList roundtrip_env [''base/pak01_044.vpk''] outFile
     = (None, [WriteFile outFile (''base/pak01_044.vpk'' @ [CHR 0x0A])])"
  by (simp add: WriteVPKList_def roundtrip_env_def vpkListText_def)

lemma roundtrip_file: "vpkDirFile roundtrip_env = roundtrip_listing"
  by (simp add: roundtrip_env_def)

lemma roundtrip_generate:
  "GenerateVPKList roundtrip_env vpkDir ''a/b'' ''base'' outFile r =
     (r = (None,
        [CreateTemp ''vpkdir_*.txt'',
         Log ''Running Source2Viewer-CLI to generate vpk dir at /tmp/vpkdir_1.txt'',
         Invoke \<lparr>prog = ''tools/Source2Viewer-CLI'', args = [''-i'', vpkDir, ''--vpk_dir''],
                 deadline = None\<rparr>,
         Log ''vpk dir generated successfully at /tmp/vpkdir_1.txt'',
         Log ''Total matched lines: 2'',
         WriteFile outFile (''base/pak01_044.vpk'' @ [CHR 0x0A])]))"
proof
  assume "GenerateVPKList roundtrip_env vpkDir ''a/b'' ''base'' outFile r"
  then show "r = (None,
        [CreateTemp ''vpkdir_*.txt'',
         Log ''Running Source2Viewer-CLI to generate vpk dir at /tmp/vpkdir_1.txt'',
         Invoke \<lparr>prog = ''tools/Source2Viewer-CLI'', args = [''-i'', vpkDir, ''--vpk_dir''],
                 deadline = None\<rparr>,
         Log ''vpk dir generated successfully at /tmp/vpkdir_1.txt'',
         Log ''Total matched lines: 2'',
         WriteFile outFile (''base/pak01_044.vpk'' @ [CHR 0x0A])])"
    by cases
      (simp_all add: roundtrip_dir roundtrip_parse roundtrip_map roundtrip_logs roundtrip_write
        roundtrip_file)
next
  assume r: "r = (None,
        [CreateTemp ''vpkdir_*.txt'',
         Log ''Running Source2Viewer-CLI to generate vpk dir at /tmp/vpkdir_1.txt'',
         Invoke \<lparr>prog = ''tools/Source2Viewer-CLI'', args = [''-i'', vpkDir, ''--vpk_dir''],
                 deadline = None\<rparr>,
         Log ''vpk dir generated successfully at /tmp/vpkdir_1.txt'',
         Log ''Total matched lines: 2'',
         WriteFile outFile (''base/pak01_044.vpk'' @ [CHR 0x0A])])"
  have "GenerateVPKList roundtrip_env vpkDir ''a/b'' ''base'' outFile
          (None,
           [CreateTemp ''vpkdir_*.txt'',
            Log ''Running Source2Viewer-CLI to generate vpk dir at /tmp/vpkdir_1.txt'',
            Invoke \<lparr>prog = ''tools/Source2Viewer-CLI'', args = [''-i'', vpkDir, ''--vpk_dir''],
                    deadline = None\<rparr>,
            Log ''vpk dir generated successfully at /tmp/vpkdir_1.txt'']
           @ map Log (ParseVPKDir_logs (vpkDirFile roundtrip_env) ''a/b'')
           @ [WriteFile outFile (''base/pak01_044.vpk'' @ [CHR 0x0A])])"
    by (rule GenerateVPKList.written
          [where fnumbers = "[44]" and vpks = "[''base/pak01_044.vpk'']"])
      (simp_all add: roundtrip_dir roundtrip_parse roundtrip_map roundtrip_write roundtrip_file)
  with r show "GenerateVPKList roundtrip_env vpkDir ''a/b'' ''base'' outFile r"
    by (simp add: roundtrip_file roundtrip_logs)
qed

text \<open>
  Claim C3. On the listing with the entries \<open>a/b/img1.vtex\<close> and \<open>a/b/img2.vtex\<close> of
  fnumber 44 and \<open>c/d/x.vtex\<close> of fnumber 7, with the prefix \<open>a/b\<close>: \<open>ParseVPKDir\<close> returns
  the one fnumber 44, \<open>MapFNumberToVPK\<close> with the base directory \<open>base\<close> returns the one
  path \<open>base/pak01_044.vpk\<close>, which is not the path of fnumber 7, and \<open>GenerateVPKList\<close>
  writes that one line to the output file and returns no error.
\<close>

theorem C3_roundtrip_one_segment_path:
  "(\<forall>res. ParseVPKDir roundtrip_listing ''a/b'' res = (res = Inr [44]))
   \<and> (\<forall>vpks. MapFNumberToVPK [44] ''base'' vpks = (vpks = [''base/pak01_044.vpk'']))
   \<and> vpkPath ''base'' 7 = ''base/pak01_007.vpk''
   \<and> vpkPath ''base'' 7 \<noteq> ''base/pak01_044.vpk''
   \<and> (\<forall>r. GenerateVPKList roundtrip_env vpkDir ''a/b'' ''base'' outFile r =
         (r = (None,
            [CreateTemp ''vpkdir_*.txt'',
             Log ''Running Source2Viewer-CLI to generate vpk dir at /tmp/vpkdir_1.txt'',
             Invoke \<lparr>prog = ''tools/Source2Viewer-CLI'',
                     args = [''-i'', vpkDir, ''--vpk_dir''], deadline = None\<rparr>,
             Log ''vpk dir generated successfully at /tmp/vpkdir_1.txt'',
             Log ''Total matched lines: 2'',
             WriteFile outFile (''base/pak01_044.vpk'' @ [CHR 0x0A])])))"
proof -
  have "vpkPath ''base'' 7 = ''base/pak01_007.vpk''" by code_simp
  then show ?thesis
    using roundtrip_parse roundtrip_map roundtrip_generate [of vpkDir outFile] by simp
qed

section \<open>The fnumber of a line\<close>

lemma parseLine_unmatched:
  "\<not> reachesExtraction p line \<Longrightarrow> parseLine p st line = st"
  by (auto simp: parseLine_def reachesExtraction_def skipped_def prefixMatch_def Let_def)

lemma parseLine_matched:
  assumes "reachesExtraction p line"
  shows "parseLine p st line =
     (let r = extractFnumber line (tl (Fields line)) in
      if fst r \<noteq> 0
      then st\<lparr>matchedLines := matchedLines st + 1, logs := logs st @ snd r,
              fnumberSet := insert (fst r) (fnumberSet st)\<rparr>
      else st\<lparr>matchedLines := matchedLines st + 1,
              logs := logs st @ snd r @ [''No valid fnumber found in line: '' @ line]\<rparr>)"
  using assms
  by (auto simp: parseLine_def reachesExtraction_def skipped_def prefixMatch_def Let_def
      split: prod.splits)

lemma extractFnumber_first:
  assumes "list_all (\<lambda>f. \<not> HasPrefix f ''fnumber='') pre" "HasPrefix field ''fnumber=''"
  shows "extractFnumber line (pre @ field # post) =
           (case Atoi (TrimPrefix field ''fnumber='') of
              Some fnum \<Rightarrow> (fnum, [])
            | None \<Rightarrow> (0, [invalidWarning (TrimPrefix field ''fnumber='') line]))"
  using assms
  by (induction pre) (simp_all add: invalidWarning_def Let_def split: option.splits)

lemma parseLine_fnumberSet:
  "fnumberSet (parseLine p st line) =
     (if reachesExtraction p line \<and> fst (extractFnumber line (tl (Fields line))) \<noteq> 0
      then insert (fst (extractFnumber line (tl (Fields line)))) (fnumberSet st)
      else fnumberSet st)"
proof (cases "reachesExtraction p line")
  case True
  then show ?thesis by (simp add: parseLine_matched Let_def)
next
  case False
  then show ?thesis by (simp add: parseLine_unmatched)
qed

text \<open>
  Claim C4. Of the fields after the path, the first one that starts with \<open>fnumber=\<close>
  decides, whatever follows it: when its value parses, that value is the fnumber of the
  line (and is collected if the line got as far as the search and the value is not 0);
  when it does not parse, the warning is logged, the line adds nothing to the set, and
  the fields after it are not looked at.
\<close>

theorem C4_first_fnumber_field_decides:
  assumes "tl (Fields line) = pre @ field # post"
    and "list_all (\<lambda>f. \<not> HasPrefix f ''fnumber='') pre"
    and "HasPrefix field ''fnumber=''"
  shows "extractFnumber line (tl (Fields line)) =
           (case Atoi (TrimPrefix field ''fnumber='') of
              Some fnum \<Rightarrow> (fnum, [])
            | None \<Rightarrow> (0, [invalidWarning (TrimPrefix field ''fnumber='') line]))
       \<and> (\<forall>fnum. Atoi (TrimPrefix field ''fnumber='') = Some fnum \<and> fnum \<noteq> 0
                   \<and> reachesExtraction p line \<longrightarrow>
             fnumberSet (parseLine p st line) = insert fnum (fnumberSet st))
       \<and> (Atoi (TrimPrefix field ''fnumber='') = None \<longrightarrow>
             fnumberSet (parseLine p st line) = fnumberSet st
             \<and> (reachesExtraction p line \<longrightarrow>
                  logs (parseLine p st line) =
                    logs st @ [invalidWarning (TrimPrefix field ''fnumber='') line,
                               ''No valid fnumber found in line: '' @ line]))"
proof -
  have e: "extractFnumber line (tl (Fields line)) =
           (case Atoi (TrimPrefix field ''fnumber='') of
              Some fnum \<Rightarrow> (fnum, [])
            | None \<Rightarrow> (0, [invalidWarning (TrimPrefix field ''fnumber='') line]))"
    unfolding assms(1) by (rule extractFnumber_first [OF assms(2,3)])
  have "fnumberSet (parseLine p st line) = insert fnum (fnumberSet st)"
    if "Atoi (TrimPrefix field ''fnumber='') = Some fnum" "fnum \<noteq> 0" "reachesExtraction p line"
    for fnum
    using that e by (simp add: parseLine_fnumberSet)
  moreover have "fnumberSet (parseLine p st line) = fnumberSet st"
    if "Atoi (TrimPrefix field ''fnumber='') = None"
    using that e by (simp add: parseLine_fnumberSet)
  moreover have "logs (parseLine p st line) =
                    logs st @ [invalidWarning (TrimPrefix field ''fnumber='') line,
                               ''No valid fnumber found in line: '' @ line]"
    if "Atoi (TrimPrefix field ''fnumber='') = None" "reachesExtraction p line"
    using that e by (simp add: parseLine_matched)
  ultimately show ?thesis using e by blast
qed

text \<open>
  The theorem at a line whose first \<open>fnumber=\<close> field does not parse and whose second one
  does, and at a line whose first one parses.
\<close>

theorem C4_witness:
  "tl (Fields ''a/b/x.vtex crc=1 metadatasz=0 fnumber=abc fnumber=5'')
     = [''crc=1'', ''metadatasz=0''] @ ''fnumber=abc'' # [''fnumber=5'']
   \<and> list_all (\<lambda>f. \<not> HasPrefix f ''fnumber='') [''crc=1'', ''metadatasz=0'']
   \<and> HasPrefix ''fnumber=abc'' ''fnumber=''
   \<and> Atoi (TrimPrefix ''fnumber=abc'' ''fnumber='') = None
   \<and> reachesExtraction ''a/b'' ''a/b/x.vtex crc=1 metadatasz=0 fnumber=abc fnumber=5''
   \<and> extractFnumber ''a/b/x.vtex crc=1 metadatasz=0 fnumber=abc fnumber=5''
        (tl (Fields ''a/b/x.vtex crc=1 metadatasz=0 fnumber=abc fnumber=5''))
       = (0, [invalidWarning ''abc'' ''a/b/x.vtex crc=1 metadatasz=0 fnumber=abc fnumber=5''])
   \<and> fnumberSet (parseLine ''a/b'' init_state
        ''a/b/x.vtex crc=1 metadatasz=0 fnumber=abc fnumber=5'') = {}
   \<and> logs (parseLine ''a/b'' init_state
        ''a/b/x.vtex crc=1 metadatasz=0 fnumber=abc fnumber=5'')
       = [invalidWarning ''abc'' ''a/b/x.vtex crc=1 metadatasz=0 fnumber=abc fnumber=5'',
          ''No valid fnumber found in line: a/b/x.vtex crc=1 metadatasz=0 fnumber=abc fnumber=5'']"
proof -
  have h1: "tl (Fields ''a/b/x.vtex crc=1 metadatasz=0 fnumber=abc fnumber=5'')
     = [''crc=1'', ''metadatasz=0''] @ ''fnumber=abc'' # [''fnumber=5'']"
    by code_simp
  have h2: "list_all (\<lambda>f. \<not> HasPrefix f ''fnumber='') [''crc=1'', ''metadatasz=0'']"
    by code_simp
  have h3: "HasPrefix ''fnumber=abc'' ''fnumber=''"
    by code_simp
  have a: "Atoi (TrimPrefix ''fnumber=abc'' ''fnumber='') = None"
    by code_simp
  have t: "TrimPrefix ''fnumber=abc'' ''fnumber='' = ''abc''"
    by code_simp
  have r: "reachesExtraction ''a/b'' ''a/b/x.vtex crc=1 metadatasz=0 fnumber=abc fnumber=5''"
    by code_simp
  from C4_first_fnumber_field_decides [OF h1 h2 h3, of "''a/b''" init_state] a r
  have "extractFnumber ''a/b/x.vtex crc=1 metadatasz=0 fnumber=abc fnumber=5''
        (tl (Fields ''a/b/x.vtex crc=1 metadatasz=0 fnumber=abc fnumber=5''))
       = (0, [invalidWarning ''abc'' ''a/b/x.vtex crc=1 metadatasz=0 fnumber=abc fnumber=5''])"
    and "fnumberSet (parseLine ''a/b'' init_state
        ''a/b/x.vtex crc=1 metadatasz=0 fnumber=abc fnumber=5'') = {}"
    and "logs (parseLine ''a/b'' init_state
        ''a/b/x.vtex crc=1 metadatasz=0 fnumber=abc fnumber=5'')
       = [invalidWarning ''abc'' ''a/b/x.vtex crc=1 metadatasz=0 fnumber=abc fnumber=5'',
          ''No valid fnumber found in line: a/b/x.vtex crc=1 metadatasz=0 fnumber=abc fnumber=5'']"
    by (simp_all add: t init_state_def)
  with h1 h2 h3 a r show ?thesis by blast
qed

section \<open>The returned fnumbers\<close>

lemma scan_zero: "0 \<notin> fnumberSet (foldl (parseLine p) st lines) = (0 \<notin> fnumberSet st)"
  by (induction lines arbitrary: st) (simp_all add: parseLine_fnumberSet)

lemma scan_finite: "finite (fnumberSet (foldl (parseLine p) st lines)) = finite (fnumberSet st)"
  by (induction lines arbitrary: st) (simp_all add: parseLine_fnumberSet)

lemma scanLines_zero: "0 \<notin> fnumberSet (scanLines p lines)"
  by (simp add: scanLines_def scan_zero init_state_def)

lemma scanLines_finite: "finite (fnumberSet (scanLines p lines))"
  by (simp add: scanLines_def scan_finite init_state_def)

lemma ParseVPKDir_Inr:
  "ParseVPKDir file p (Inr fnumbers) =
     (\<exists>lines. file = Opened lines None \<and> rangeKeys (fnumberSet (scanLines p lines)) fnumbers)"
  by (auto simp: ParseVPKDir_def ParseVPKDir_scan_def Let_def split: listing.splits option.splits)

lemma ParseVPKDir_returns: "\<exists>res. ParseVPKDir file p res"
proof (cases "ParseVPKDir_scan file p")
  case (Inl e)
  then show ?thesis by (auto simp: ParseVPKDir_def)
next
  case (Inr st)
  then obtain lines where "file = Opened lines None" "fnumberSet st = fnumberSet (scanLines p lines)"
    by (auto simp: ParseVPKDir_scan_def Let_def split: listing.splits option.splits)
  then have "finite (fnumberSet st)" by (simp add: scanLines_finite)
  then obtain xs where "set xs = fnumberSet st" "distinct xs"
    using finite_distinct_list by blast
  with Inr have "ParseVPKDir file p (Inr xs)" by (simp add: ParseVPKDir_def rangeKeys_def)
  then show ?thesis ..
qed

text \<open>
  Claim C5. A slice that \<open>ParseVPKDir\<close> returns has no duplicates and does not contain 0;
  a line whose first \<open>fnumber=\<close> field is \<open>fnumber=0\<close> leaves the set as it was.
\<close>

theorem C5_fnumbers_nonzero_and_distinct:
  assumes "ParseVPKDir file p (Inr fnumbers)"
  shows "distinct fnumbers \<and> 0 \<notin> set fnumbers
       \<and> (\<forall>st line pre post.
             tl (Fields line) = pre @ ''fnumber=0'' # post
             \<and> list_all (\<lambda>f. \<not> HasPrefix f ''fnumber='') pre \<longrightarrow>
             fnumberSet (parseLine p st line) = fnumberSet st)"
proof -
  from assms obtain lines where r: "rangeKeys (fnumberSet (scanLines p lines)) fnumbers"
    by (auto simp: ParseVPKDir_Inr)
  then have "distinct fnumbers" "0 \<notin> set fnumbers"
    using scanLines_zero [of p lines] by (simp_all add: rangeKeys_def)
  moreover have "fnumberSet (parseLine p st line) = fnumberSet st"
    if "tl (Fields line) = pre @ ''fnumber=0'' # post"
      "list_all (\<lambda>f. \<not> HasPrefix f ''fnumber='') pre" for st line pre post
  proof -
    have "HasPrefix ''fnumber=0'' ''fnumber=''" by code_simp
    moreover have "Atoi (TrimPrefix ''fnumber=0'' ''fnumber='') = Some 0" by code_simp
    ultimately have "extractFnumber line (tl (Fields line)) = (0, [])"
      using that by (simp add: extractFnumber_first)
    then show ?thesis by (simp add: parseLine_fnumberSet)
  qed
  ultimately show ?thesis by blast
qed

text \<open>
  The theorem at the listing of the round-trip example followed by an entry with
  \<open>fnumber=0\<close>.
\<close>

theorem C5_witness:
  "ParseVPKDir
     (Opened [''a/b/img1.vtex crc=1 metadatasz=0 fnumber=44 ofs=0 sz=10'',
              ''a/b/img0.vtex crc=2 metadatasz=0 fnumber=0 ofs=10 sz=10''] None)
     ''a/b'' (Inr [44])
   \<and> distinct [44::int] \<and> (0::int) \<notin> set [44]
   \<and> tl (Fields ''a/b/img0.vtex crc=2 metadatasz=0 fnumber=0 ofs=10 sz=10'')
       = [''crc=2'', ''metadatasz=0''] @ ''fnumber=0'' # [''ofs=10'', ''sz=10'']
   \<and> list_all (\<lambda>f. \<not> HasPrefix f ''fnumber='') [''crc=2'', ''metadatasz=0'']
   \<and> fnumberSet (parseLine ''a/b'' init_state
        ''a/b/img0.vtex crc=2 metadatasz=0 fnumber=0 ofs=10 sz=10'') = {}"
proof -
  have s: "ParseVPKDir_scan
     (Opened [''a/b/img1.vtex crc=1 metadatasz=0 fnumber=44 ofs=0 sz=10'',
              ''a/b/img0.vtex crc=2 metadatasz=0 fnumber=0 ofs=10 sz=10''] None) ''a/b''
     = Inr \<lparr>fnumberSet = {44}, matchedLines = 2,
            logs = [''No valid fnumber found in line: a/b/img0.vtex crc=2 metadatasz=0 fnumber=0 ofs=10 sz=10'',
                    ''Total matched lines: 2'']\<rparr>"
    by code_simp
  have h: "ParseVPKDir
     (Opened [''a/b/img1.vtex crc=1 metadatasz=0 fnumber=44 ofs=0 sz=10'',
              ''a/b/img0.vtex crc=2 metadatasz=0 fnumber=0 ofs=10 sz=10''] None)
     ''a/b'' (Inr [44])"
    by (simp add: ParseVPKDir_singleton [OF s])
  have f: "tl (Fields ''a/b/img0.vtex crc=2 metadatasz=0 fnumber=0 ofs=10 sz=10'')
       = [''crc=2'', ''metadatasz=0''] @ ''fnumber=0'' # [''ofs=10'', ''sz=10'']"
    by code_simp
  have l: "list_all (\<lambda>f. \<not> HasPrefix f ''fnumber='') [''crc=2'', ''metadatasz=0'']"
    by code_simp
  from C5_fnumbers_nonzero_and_distinct [OF h] f l
  have "distinct [44::int]" "(0::int) \<notin> set [44]"
    "fnumberSet (parseLine ''a/b'' init_state
        ''a/b/img0.vtex crc=2 metadatasz=0 fnumber=0 ofs=10 sz=10'') = fnumberSet init_state"
    by blast+
  with h f l show ?thesis by (simp add: init_state_def)
qed

section \<open>The result of a command\<close>

text \<open>
  Claim C7. The result of \<open>Run\<close> carries the two buffers as they are when the process
  ends, whether it failed or not. Its error is absent when \<open>cmd.Run\<close> returned none;
  otherwise it wraps the error of \<open>cmd.Run\<close> behind \<open>command timed out: \<close> when the
  context's deadline has passed and behind \<open>command execution failed: \<close> when not, and
  the two can be told apart, as values and by their messages. \<open>RunCommand\<close> is \<open>Run\<close>
  under a deadline of 60 seconds.
\<close>

theorem C7_run_result:
  "Stdout (fst (Run ctxDeadline name arguments p)) = stdoutBuf p
   \<and> Stderr (fst (Run ctxDeadline name arguments p)) = stderrBuf p
   \<and> Error (fst (Run ctxDeadline name arguments p)) =
       (case runErr p of
          None \<Rightarrow> None
        | Some err \<Rightarrow>
            Some (if ctxErr p = DeadlineExceeded then Wrap ''command timed out: '' err
                  else Wrap ''command execution failed: '' err))
   \<and> fst (RunCommand name arguments p) = fst (Run (Some 60) name arguments p)
   \<and> (\<forall>e e'. Wrap ''command timed out: '' e \<noteq> Wrap ''command execution failed: '' e'
            \<and> errorString (Wrap ''command timed out: '' e)
                \<noteq> errorString (Wrap ''command execution failed: '' e'))"
proof -
  have "errorString (Wrap ''command timed out: '' e)
                \<noteq> errorString (Wrap ''command execution failed: '' e')" for e e'
    by simp
  then show ?thesis
    by (simp add: Run_def RunCommand_def Let_def split: option.splits)
qed

section \<open>The stages of a run\<close>

lemma invocations_append: "invocations (a @ b) = invocations a @ invocations b"
  by (induction a rule: invocations.induct) simp_all

lemma writes_append: "writes (a @ b) = writes a @ writes b"
  by (induction a rule: writes.induct) simp_all

lemma invocations_Log: "invocations (map Log ls) = []"
  by (induction ls) simp_all

lemma writes_Log: "writes (map Log ls) = []"
  by (induction ls) simp_all

lemma Run_invocations:
  "invocations (snd (Run d name arguments p)) = [\<lparr>prog = name, args = arguments, deadline = d\<rparr>]"
  by (simp add: Run_def Let_def invocations_append split: option.splits)

lemma Run_writes: "writes (snd (Run d name arguments p)) = []"
  by (simp add: Run_def Let_def writes_append split: option.splits)

lemma RunCommand_invocations:
  "invocations (snd (RunCommand name arguments p))
     = [\<lparr>prog = name, args = arguments, deadline = Some 60\<rparr>]"
  by (simp add: RunCommand_def Run_invocations)

lemma RunCommand_writes: "writes (snd (RunCommand name arguments p)) = []"
  by (simp add: RunCommand_def Run_writes)

lemma beforeGate_writes: "writes (fst (beforeGate env)) = []"
  by (simp add: beforeGate_def Let_def writes_append RunCommand_writes case_prod_beta
      split: option.splits sum.splits)

lemma beforeGate_invocations:
  "invocations (fst (beforeGate env)) = (if ensureTools env = None then [manifestFetch] else [])"
  by (simp add: beforeGate_def Let_def invocations_append RunCommand_invocations case_prod_beta
      manifestFetch_def split: option.splits sum.splits)


lemma afterList_kinds:
  "startOf (kinds (afterList env name))
     [(''tools/DepotDownloader'', None), (''tools/Source2Viewer-CLI'', None)]"
  by (simp add: afterList_def PipeOutput_def Let_def kinds_def startOf_def invocations_append
      split: option.splits sum.splits pipe_outcome.splits)

lemma generateVPKDirectory_kinds:
  "generateVPKDirectory genv vpkDir = (r, ev) \<Longrightarrow>
   kinds ev = (if isl r \<and> isl (manifestTemp genv) then []
               else [(''tools/Source2Viewer-CLI'', None)])"
  by (auto simp: generateVPKDirectory_def Let_def kinds_def split: sum.splits option.splits)

lemma WriteVPKList_invocations: "invocations (snd (WriteVPKList genv vpks outFile)) = []"
  by (simp add: WriteVPKList_def split: option.splits prod.splits)

lemma GenerateVPKList_kinds:
  assumes "GenerateVPKList genv vpkDir p b outFile gen"
  shows "(kinds (snd gen) = [] \<and> fst gen \<noteq> None)
       \<or> kinds (snd gen) = [(''tools/Source2Viewer-CLI'', None)]"
  using assms
proof cases
  case (manifest_error e ev)
  then show ?thesis
    using generateVPKDirectory_kinds [of genv vpkDir "Inl e" ev] by (simp split: if_splits)
next
  case (parse_error manifestPath ev e)
  then show ?thesis
    using generateVPKDirectory_kinds [of genv vpkDir "Inr manifestPath" ev]
    by (simp add: kinds_def invocations_append invocations_Log)
next
  case (no_fnumbers manifestPath ev fnumbers)
  then show ?thesis
    using generateVPKDirectory_kinds [of genv vpkDir "Inr manifestPath" ev]
    by (simp add: kinds_def invocations_append invocations_Log)
next
  case (no_vpks manifestPath ev fnumbers vpks)
  then show ?thesis
    using generateVPKDirectory_kinds [of genv vpkDir "Inr manifestPath" ev]
    by (simp add: kinds_def invocations_append invocations_Log)
next
  case (write_error manifestPath ev fnumbers vpks e wev)
  then show ?thesis
    using generateVPKDirectory_kinds [of genv vpkDir "Inr manifestPath" ev]
      WriteVPKList_invocations [of genv vpks outFile]
    by (simp add: kinds_def invocations_append invocations_Log)
next
  case (written manifestPath ev fnumbers vpks wev)
  then show ?thesis
    using generateVPKDirectory_kinds [of genv vpkDir "Inr manifestPath" ev]
      WriteVPKList_invocations [of genv vpks outFile]
    by (simp add: kinds_def invocations_append invocations_Log)
qed

lemma kinds_append: "kinds (a @ b) = kinds a @ kinds b"
  by (simp add: kinds_def invocations_append)

lemma kinds_simps:
  "kinds [] = []" "kinds (Log m # es) = kinds es" "kinds (WriteFile f c # es) = kinds es"
  "kinds (CreateTemp t # es) = kinds es" "kinds (Fatal m # es) = kinds es"
  "kinds (Glob g # es) = kinds es" "kinds (Stat f # es) = kinds es"
  "kinds (ReadFile f # es) = kinds es" "kinds (EnsureTools # es) = kinds es"
  "kinds (Invoke i # es) = (prog i, deadline i) # kinds es"
  by (simp_all add: kinds_def)

lemma RunCommand_kinds: "kinds (snd (RunCommand name arguments p)) = [(name, Some 60)]"
  by (simp add: kinds_def RunCommand_invocations)

lemma startOf_Nil: "startOf [] ys"
  by (simp add: startOf_def)

lemma startOf_Cons: "startOf (x # xs) (y # ys) = (x = y \<and> startOf xs ys)"
  by (auto simp: startOf_def)

lemma afterGate_kinds:
  assumes "GenerateVPKList genv vpkDir p b outFile gen"
  shows "startOf (kinds (afterGate env gen newID))
     [(''tools/DepotDownloader'', Some 60), (''tools/Source2Viewer-CLI'', None),
      (''tools/DepotDownloader'', None), (''tools/Source2Viewer-CLI'', None)]"
  using GenerateVPKList_kinds [OF assms]
proof
  assume "kinds (snd gen) = [] \<and> fst gen \<noteq> None"
  then show ?thesis
    by (auto simp: afterGate_def Let_def kinds_append kinds_simps case_prod_beta
        RunCommand_kinds startOf_Nil startOf_Cons split: option.splits sum.splits)
next
  assume "kinds (snd gen) = [(''tools/Source2Viewer-CLI'', None)]"
  then show ?thesis
    by (simp add: afterGate_def Let_def kinds_append kinds_simps case_prod_beta
        RunCommand_kinds startOf_Nil startOf_Cons afterList_kinds
        split: option.splits sum.splits)
qed

lemma beforeGate_kinds:
  "kinds (fst (beforeGate env))
     = (if ensureTools env = None then [(''tools/DepotDownloader'', Some 60)] else [])"
  by (simp add: kinds_def beforeGate_invocations manifestFetch_def)

lemma main_kinds:
  assumes "GenerateVPKList genv vpkDir p b outFile gen"
  shows "startOf (kinds (main env gen))
     [(''tools/DepotDownloader'', Some 60), (''tools/DepotDownloader'', Some 60),
      (''tools/Source2Viewer-CLI'', None), (''tools/DepotDownloader'', None),
      (''tools/Source2Viewer-CLI'', None)]"
proof (cases "beforeGate env")
  case (Pair ev r)
  then have k: "kinds ev = (if ensureTools env = None then [(''tools/DepotDownloader'', Some 60)] else [])"
    using beforeGate_kinds [of env] by simp
  show ?thesis
  proof (cases r)
    case None
    with Pair k show ?thesis by (simp add: main_def startOf_Nil startOf_Cons)
  next
    case (Some ids)
    then obtain t n where ids: "ids = (t, n)" by (cases ids)
    from Pair Some have "ensureTools env = None"
      by (auto simp: beforeGate_def split: option.splits)
    with k have k': "kinds ev = [(''tools/DepotDownloader'', Some 60)]" by simp
    show ?thesis
      using Pair Some ids k' afterGate_kinds [OF assms, of env n]
      by (simp add: main_def kinds_append kinds_simps startOf_Nil startOf_Cons)
  qed
qed


lemma PipeOutput_invocations:
  "list_all (\<lambda>i. deadline i = None) (invocations (snd (PipeOutput name arguments pipe)))"
  by (simp add: PipeOutput_def Let_def split: pipe_outcome.splits)

lemma kinds_deadline:
  "kinds ev = [] \<or> kinds ev = [(x, None)] \<Longrightarrow> list_all (\<lambda>i. deadline i = None) (invocations ev)"
  by (cases "invocations ev"; cases "tl (invocations ev)") (auto simp: kinds_def)

lemma econ_generate:
  "GenerateVPKList econ_env VPKDir ImageDir BaseDir ''/tmp/filelist_1.txt'' econ_gen"
proof -
  have d: "generateVPKDirectory econ_env VPKDir =
     (Inr ''/tmp/vpkdir_1.txt'',
      [CreateTemp ''vpkdir_*.txt'',
       Log ''Running Source2Viewer-CLI to generate vpk dir at /tmp/vpkdir_1.txt'',
       Invoke \<lparr>prog = ''tools/Source2Viewer-CLI'',
               args = [''-i'', ''data/game/csgo/pak01_dir.vpk'', ''--vpk_dir''],
               deadline = None\<rparr>,
       Log ''vpk dir generated successfully at /tmp/vpkdir_1.txt''])"
    by (simp add: generateVPKDirectory_def econ_env_def VPKDir_def)
  have s: "ParseVPKDir_scan (vpkDirFile econ_env) ImageDir
     = Inr \<lparr>fnumberSet = {44}, matchedLines = 1, logs = [''Total matched lines: 1'']\<rparr>"
    by code_simp
  have l: "ParseVPKDir_logs (vpkDirFile econ_env) ImageDir = [''Total matched lines: 1'']"
    by code_simp
  have v: "vpkSet [44] BaseDir = {''game/csgo/pak01_044.vpk''}"
    by code_simp
  have p: "ParseVPKDir (vpkDirFile econ_env) ImageDir (Inr [44])"
    by (simp add: ParseVPKDir_singleton [OF s])
  have m: "MapFNumberToVPK [44] BaseDir [''game/csgo/pak01_044.vpk'']"
    by (simp add: MapFNumberToVPK_def v rangeKeys_singleton)
  have w: "WriteVPKList econ_env [''game/csgo/pak01_044.vpk''] ''/tmp/filelist_1.txt''
     = (None, [WriteFile ''/tmp/filelist_1.txt'' (''game/csgo/pak01_044.vpk'' @ [CHR 0x0A])])"
    by (simp add: WriteVPKList_def econ_env_def vpkListText_def)
  have "GenerateVPKList econ_env VPKDir ImageDir BaseDir ''/tmp/filelist_1.txt''
     (None,
      [CreateTemp ''vpkdir_*.txt'',
       Log ''Running Source2Viewer-CLI to generate vpk dir at /tmp/vpkdir_1.txt'',
       Invoke \<lparr>prog = ''tools/Source2Viewer-CLI'',
               args = [''-i'', ''data/game/csgo/pak01_dir.vpk'', ''--vpk_dir''],
               deadline = None\<rparr>,
       Log ''vpk dir generated successfully at /tmp/vpkdir_1.txt'']
      @ map Log (ParseVPKDir_logs (vpkDirFile econ_env) ImageDir)
      @ [WriteFile ''/tmp/filelist_1.txt'' (''game/csgo/pak01_044.vpk'' @ [CHR 0x0A])])"
    by (rule GenerateVPKList.written
          [where fnumbers = "[44]" and vpks = "[''game/csgo/pak01_044.vpk'']"])
      (simp_all add: d p m w)
  then show ?thesis by (simp add: econ_gen_def l)
qed

lemma first_run_kinds:
  "kinds (main first_run_env econ_gen) =
     [(''tools/DepotDownloader'', Some 60), (''tools/DepotDownloader'', Some 60),
      (''tools/Source2Viewer-CLI'', None), (''tools/DepotDownloader'', None),
      (''tools/Source2Viewer-CLI'', None)]"
  by code_simp

text \<open>
  Claim C9, as stated, fails on a run in which every stage succeeds: the second command,
  the fetch of the directory-listing file in stage 5, is started by \<open>RunCommand\<close> as well
  and runs under the deadline of 60 seconds.
\<close>

theorem C9_counterexample:
  "GenerateVPKList econ_env VPKDir ImageDir BaseDir ''/tmp/filelist_1.txt'' econ_gen
   \<and> map deadline (invocations (main first_run_env econ_gen))
       = [Some 60, Some 60, None, None, None]
   \<and> map deadline (invocations (main first_run_env econ_gen))
       \<noteq> [Some 60, None, None, None, None]
   \<and> invocations (main first_run_env econ_gen) ! 1
       = \<lparr>prog = ''tools/DepotDownloader'', args = filelistArgs ''/tmp/dir-file_1.txt'',
          deadline = Some 60\<rparr>"
proof -
  have "map deadline (invocations (main first_run_env econ_gen))
       = [Some 60, Some 60, None, None, None]"
    by code_simp
  moreover have "invocations (main first_run_env econ_gen) ! 1
       = \<lparr>prog = ''tools/DepotDownloader'', args = filelistArgs ''/tmp/dir-file_1.txt'',
          deadline = Some 60\<rparr>"
    by code_simp
  ultimately show ?thesis using econ_generate by simp
qed

text \<open>
  Claim C9, amended. The commands of a run are, in order, an initial segment of: the
  manifest-only fetch and the fetch of the directory-listing file, both under a deadline
  of 60 seconds, then the listing dump, the fetch of the segments and the extraction,
  all three without deadline. \<open>RunCommand\<close> always sets the deadline of 60 seconds;
  \<open>PipeOutput\<close> and \<open>GenerateVPKList\<close> never set one.
\<close>

theorem C9_deadlines_of_the_stages:
  assumes "GenerateVPKList genv vpkDir p b outFile gen"
  shows "startOf (kinds (main env gen))
           [(''tools/DepotDownloader'', Some 60), (''tools/DepotDownloader'', Some 60),
            (''tools/Source2Viewer-CLI'', None), (''tools/DepotDownloader'', None),
            (''tools/Source2Viewer-CLI'', None)]
       \<and> invocations (snd (RunCommand name arguments po))
           = [\<lparr>prog = name, args = arguments, deadline = Some 60\<rparr>]
       \<and> list_all (\<lambda>i. deadline i = None) (invocations (snd (PipeOutput name arguments pipe)))
       \<and> list_all (\<lambda>i. deadline i = None) (invocations (snd gen))"
proof -
  from GenerateVPKList_kinds [OF assms]
  have "list_all (\<lambda>i. deadline i = None) (invocations (snd gen))"
    by (auto intro: kinds_deadline)
  then show ?thesis
    using main_kinds [OF assms, of env] RunCommand_invocations PipeOutput_invocations
    by simp
qed

text \<open>
  The theorem at the run in which every stage succeeds: all five commands are started.
\<close>

theorem C9_witness:
  "GenerateVPKList econ_env VPKDir ImageDir BaseDir ''/tmp/filelist_1.txt'' econ_gen
   \<and> startOf (kinds (main first_run_env econ_gen))
           [(''tools/DepotDownloader'', Some 60), (''tools/DepotDownloader'', Some 60),
            (''tools/Source2Viewer-CLI'', None), (''tools/DepotDownloader'', None),
            (''tools/Source2Viewer-CLI'', None)]
   \<and> length (kinds (main first_run_env econ_gen)) = 5
   \<and> list_all (\<lambda>i. deadline i = None) (invocations (snd econ_gen))"
proof -
  have "length (kinds (main first_run_env econ_gen)) = 5"
    by (simp add: first_run_kinds)
  with C9_deadlines_of_the_stages [OF econ_generate, of first_run_env] econ_generate
  show ?thesis by simp
qed

lemma afterGate_writes:
  "\<exists>rest. writes (afterGate env gen n) = (''manifest_id.txt'', n) # rest"
  by (simp add: afterGate_def Let_def writes_append case_prod_beta
      split: option.splits sum.splits)

lemma beforeGate_tracked:
  assumes "beforeGate env = (ev, Some (t, n))"
  shows "if fileExists (idStat env) then \<exists>data. idRead env = Inr data \<and> t = TrimSpace data
         else t = []"
  using assms
  by (auto simp: beforeGate_def Let_def case_prod_beta split: option.splits sum.splits if_splits)

text \<open>
  Claim C8. No run writes a file before the comparison of the identities. When the
  stored identity is not empty and equals the new one, the run ends there: it has
  written nothing and has started no command but the manifest-only fetch. A run that
  writes anything has passed the comparison (the identities differ or the stored one is
  empty), and its first write puts the new identity into \<open>manifest_id.txt\<close>. The stored
  identity is the trimmed content of the file, or empty when there is no such file.
\<close>

theorem C8_identity_gate:
  "writes (fst (beforeGate env)) = []
   \<and> (\<forall>ev trackedID newManifestID.
        beforeGate env = (ev, Some (trackedID, newManifestID))
        \<and> trackedID \<noteq> [] \<and> trackedID = newManifestID \<longrightarrow>
          main env gen = ev @ [Log ''Manifest ID matches the current ID. Exiting.'']
          \<and> writes (main env gen) = []
          \<and> invocations (main env gen) = [manifestFetch])
   \<and> (writes (main env gen) \<noteq> [] \<longrightarrow>
        (\<exists>ev trackedID newManifestID rest.
           beforeGate env = (ev, Some (trackedID, newManifestID))
           \<and> \<not> (trackedID = newManifestID \<and> trackedID \<noteq> [])
           \<and> writes (main env gen) = (''manifest_id.txt'', newManifestID) # rest))
   \<and> (\<forall>ev trackedID newManifestID.
        beforeGate env = (ev, Some (trackedID, newManifestID)) \<longrightarrow>
          (if fileExists (idStat env)
           then \<exists>data. idRead env = Inr data \<and> trackedID = TrimSpace data
           else trackedID = []))"
proof -
  have w: "writes (fst (beforeGate env)) = []" by (rule beforeGate_writes)
  have a: "main env gen = ev @ [Log ''Manifest ID matches the current ID. Exiting.'']
          \<and> writes (main env gen) = [] \<and> invocations (main env gen) = [manifestFetch]"
    if "beforeGate env = (ev, Some (t, n))" "t \<noteq> []" "t = n" for ev t n
  proof -
    from that(1) have "ensureTools env = None"
      by (auto simp: beforeGate_def split: option.splits)
    with that(1) have "invocations ev = [manifestFetch]"
      using beforeGate_invocations [of env] by simp
    moreover from that(1) have "writes ev = []" using w by simp
    ultimately show ?thesis using that by (simp add: main_def writes_append invocations_append)
  qed
  have b: "\<exists>ev t n rest. beforeGate env = (ev, Some (t, n)) \<and> \<not> (t = n \<and> t \<noteq> [])
           \<and> writes (main env gen) = (''manifest_id.txt'', n) # rest"
    if nw: "writes (main env gen) \<noteq> []"
  proof (cases "beforeGate env")
    case (Pair ev r)
    then have we: "writes ev = []" using w by simp
    show ?thesis
    proof (cases r)
      case None
      with Pair we nw show ?thesis by (simp add: main_def)
    next
      case (Some ids)
      obtain t n where ids: "ids = (t, n)" by (cases ids)
      obtain rest where r: "writes (afterGate env gen n) = (''manifest_id.txt'', n) # rest"
        using afterGate_writes by blast
      show ?thesis
      proof (cases "t = n \<and> t \<noteq> []")
        case True
        then have "t = n" "n \<noteq> []" by blast+
        with Pair Some ids we nw show ?thesis by (simp add: main_def writes_append)
      next
        case False
        with Pair Some ids we r have "writes (main env gen) = (''manifest_id.txt'', n) # rest"
          by (simp add: main_def writes_append)
        with Pair Some ids False show ?thesis by blast
      qed
    qed
  qed
  show ?thesis using w a b beforeGate_tracked [of env] by blast
qed

text \<open>
  The theorem at the run that finds the identity stored by the run before it, and at
  that first run, which writes the identity.
\<close>

theorem C8_witness:
  "beforeGate second_run_env
     = (fst (beforeGate second_run_env),
        Some (''5002689339188222421'', ''5002689339188222421''))
   \<and> main second_run_env econ_gen
       = fst (beforeGate second_run_env) @ [Log ''Manifest ID matches the current ID. Exiting.'']
   \<and> writes (main second_run_env econ_gen) = []
   \<and> invocations (main second_run_env econ_gen) = [manifestFetch]
   \<and> writes (main first_run_env econ_gen) \<noteq> []
   \<and> hd (writes (main first_run_env econ_gen)) = (''manifest_id.txt'', ''5002689339188222421'')"
proof -
  have s: "snd (beforeGate second_run_env)
     = Some (''5002689339188222421'', ''5002689339188222421'')"
    by code_simp
  then have h: "beforeGate second_run_env
     = (fst (beforeGate second_run_env),
        Some (''5002689339188222421'', ''5002689339188222421''))"
    by (cases "beforeGate second_run_env") simp
  have n: "writes (main first_run_env econ_gen) \<noteq> []"
    by code_simp
  have f: "snd (beforeGate first_run_env) = Some ([], ''5002689339188222421'')"
    by code_simp
  from C8_identity_gate [of second_run_env econ_gen] h
  have "main second_run_env econ_gen
       = fst (beforeGate second_run_env) @ [Log ''Manifest ID matches the current ID. Exiting.'']"
    "writes (main second_run_env econ_gen) = []"
    "invocations (main second_run_env econ_gen) = [manifestFetch]"
    by blast+
  moreover from C8_identity_gate [of first_run_env econ_gen] n f
  have "hd (writes (main first_run_env econ_gen)) = (''manifest_id.txt'', ''5002689339188222421'')"
    by (metis list.sel(1) option.inject prod.inject snd_conv)
  ultimately show ?thesis using h n by blast
qed

section \<open>Trailing slashes\<close>

lemma takeWhile_sep:
  "takeWhile (\<lambda>x. \<not> IsPathSeparator x) (xs @ CHR ''/'' # ys)
     = takeWhile (\<lambda>x. \<not> IsPathSeparator x) xs"
  by (induction xs) (simp_all add: IsPathSeparator_def)

lemma dropWhile_sep:
  "dropWhile (\<lambda>x. \<not> IsPathSeparator x) (xs @ CHR ''/'' # ys)
     = dropWhile (\<lambda>x. \<not> IsPathSeparator x) xs @ CHR ''/'' # ys"
  by (induction xs) (simp_all add: IsPathSeparator_def)

lemma cleanLoop_Nil: "cleanLoop rooted [] st = st"
  by (cases st) (simp add: cleanLoop.simps)

lemma cleanLoop_sep: "cleanLoop rooted (CHR ''/'' # b) st = cleanLoop rooted b st"
  by (cases st) (simp add: cleanLoop.simps IsPathSeparator_def)

lemma cleanLoop_dot:
  "rest = [] \<or> IsPathSeparator (hd rest) \<Longrightarrow>
   cleanLoop rooted (CHR ''.'' # rest) st = cleanLoop rooted rest st"
  by (cases st) (simp add: cleanLoop.simps IsPathSeparator_def)

lemma cleanLoop_dotdot:
  assumes "rest \<noteq> []" "hd rest = CHR ''.''" "tl rest = [] \<or> IsPathSeparator (hd (tl rest))"
  shows "cleanLoop rooted (CHR ''.'' # rest) (out, dotdot) =
     (if dotdot < length out
      then cleanLoop rooted (tl rest)
             (take (backtrack out (length out - 1) dotdot) out, dotdot)
      else if \<not> rooted
      then cleanLoop rooted (tl rest)
             ((if 0 < length out then out @ [Separator] else out) @ ''..'',
              length ((if 0 < length out then out @ [Separator] else out) @ ''..''))
      else cleanLoop rooted (tl rest) (out, dotdot))"
  using assms by (simp add: cleanLoop.simps IsPathSeparator_def Let_def)

lemma cleanLoop_elem:
  assumes "\<not> IsPathSeparator c"
    and "\<not> (c = CHR ''.'' \<and> (rest = [] \<or> IsPathSeparator (hd rest)))"
    and "\<not> (c = CHR ''.'' \<and> hd rest = CHR ''.''
             \<and> (tl rest = [] \<or> IsPathSeparator (hd (tl rest))))"
  shows "cleanLoop rooted (c # rest) (out, dotdot) =
     cleanLoop rooted (dropWhile (\<lambda>x. \<not> IsPathSeparator x) (c # rest))
       ((if rooted \<and> length out \<noteq> 1 \<or> \<not> rooted \<and> length out \<noteq> 0
         then out @ [Separator] else out)
        @ takeWhile (\<lambda>x. \<not> IsPathSeparator x) (c # rest), dotdot)"
  by (subst cleanLoop.simps(2)) (simp only: assms if_False Let_def)

text \<open>
  The loop of \<open>filepath.Clean\<close> reads a path element by element: what it does after a
  separator does not depend on what came before it, except through the buffer.
\<close>

lemma cleanLoop_split:
  "cleanLoop rooted (a @ CHR ''/'' # b) st = cleanLoop rooted b (cleanLoop rooted a st)"
proof (induction rooted a st rule: cleanLoop.induct)
  case (1 rooted out dotdot)
  show ?case by (simp add: cleanLoop_Nil cleanLoop_sep)
next
  case (2 rooted c rest out dotdot)
  let ?rest' = "rest @ CHR ''/'' # b"
  have hd': "hd ?rest' = (if rest = [] then CHR ''/'' else hd rest)"
    by (cases rest) simp_all
  have tl': "rest \<noteq> [] \<Longrightarrow> tl ?rest' = tl rest @ CHR ''/'' # b"
    by (cases rest) simp_all
  have hdtl': "rest \<noteq> [] \<Longrightarrow> hd (tl ?rest') = (if tl rest = [] then CHR ''/'' else hd (tl rest))"
    by (cases rest; cases "tl rest") simp_all
  consider (sep) "IsPathSeparator c"
    | (dot) "\<not> IsPathSeparator c" "c = CHR ''.''" "rest = [] \<or> IsPathSeparator (hd rest)"
    | (dotdot) "\<not> IsPathSeparator c" "c = CHR ''.''" "\<not> (rest = [] \<or> IsPathSeparator (hd rest))"
        "hd rest = CHR ''.''" "tl rest = [] \<or> IsPathSeparator (hd (tl rest))"
    | (elem) "\<not> IsPathSeparator c"
        "\<not> (c = CHR ''.'' \<and> (rest = [] \<or> IsPathSeparator (hd rest)))"
        "\<not> (c = CHR ''.'' \<and> hd rest = CHR ''.'' \<and> (tl rest = [] \<or> IsPathSeparator (hd (tl rest))))"
    by blast
  then show ?case
  proof cases
    case sep
    then have "c = CHR ''/''" by (simp add: IsPathSeparator_def)
    then show ?thesis
      using "2.IH"(1) [OF sep] by (simp add: cleanLoop_sep)
  next
    case dot
    then have d': "?rest' = [] \<or> IsPathSeparator (hd ?rest')"
      using hd' by (auto simp: IsPathSeparator_def)
    have "cleanLoop rooted ((c # rest) @ CHR ''/'' # b) (out, dotdot)
            = cleanLoop rooted ?rest' (out, dotdot)"
      using cleanLoop_dot [OF d'] dot(2) by simp
    also have "\<dots> = cleanLoop rooted b (cleanLoop rooted rest (out, dotdot))"
      using "2.IH"(2) [OF dot(1)] dot(2,3) by blast
    also have "cleanLoop rooted rest (out, dotdot) = cleanLoop rooted (c # rest) (out, dotdot)"
      using cleanLoop_dot [OF dot(3)] dot(2) by simp
    finally show ?thesis .
  next
    case dotdot
    then have ne: "rest \<noteq> []" by simp
    from dotdot ne have c3: "?rest' \<noteq> []" "hd ?rest' = CHR ''.''"
      "tl ?rest' = [] \<or> IsPathSeparator (hd (tl ?rest'))"
      using hd' tl' hdtl' by (auto simp: IsPathSeparator_def)
    have n2: "\<not> (c = CHR ''.'' \<and> (rest = [] \<or> IsPathSeparator (hd rest)))"
      using dotdot by blast
    have y3: "c = CHR ''.'' \<and> hd rest = CHR ''.'' \<and> (tl rest = [] \<or> IsPathSeparator (hd (tl rest)))"
      using dotdot by blast
    note ih = "2.IH"(3,4,5) [OF dotdot(1) n2 y3]
    show ?thesis
      unfolding append_Cons dotdot(2) cleanLoop_dotdot [OF c3] cleanLoop_dotdot [OF ne dotdot(4,5)]
      using ih tl' [OF ne] by (simp add: Let_def)
  next
    case elem
    then have c': "\<not> (c = CHR ''.'' \<and> (?rest' = [] \<or> IsPathSeparator (hd ?rest')))"
      "\<not> (c = CHR ''.'' \<and> hd ?rest' = CHR ''.'' \<and> (tl ?rest' = [] \<or> IsPathSeparator (hd (tl ?rest'))))"
      using hd' tl' hdtl' by (auto simp: IsPathSeparator_def split: if_splits)
    have tw: "takeWhile (\<lambda>x. \<not> IsPathSeparator x) (c # ?rest')
                = takeWhile (\<lambda>x. \<not> IsPathSeparator x) (c # rest)"
      using takeWhile_sep [of "c # rest" b] by simp
    have dw: "dropWhile (\<lambda>x. \<not> IsPathSeparator x) (c # ?rest')
                = dropWhile (\<lambda>x. \<not> IsPathSeparator x) (c # rest) @ CHR ''/'' # b"
      using dropWhile_sep [of "c # rest" b] by simp
    note ih = "2.IH"(6) [OF elem(1,2,3) refl]
    show ?thesis
      unfolding append_Cons cleanLoop_elem [OF elem(1) c'] cleanLoop_elem [OF elem] tw dw
      by (rule ih)
  qed
qed

lemma cleanLoop_trailing: "cleanLoop rooted (a @ ''/'') st = cleanLoop rooted a st"
  using cleanLoop_split [of rooted a "[]" st] by (simp add: cleanLoop_Nil)

lemma cleanLoop_trailing_Cons:
  "cleanLoop rooted (c # a @ ''/'') st = cleanLoop rooted (c # a) st"
  using cleanLoop_trailing [of rooted "c # a" st] by simp

lemma Clean_trailing_slash: "p \<noteq> [] \<Longrightarrow> Clean (p @ ''/'') = Clean p"
  by (cases p) (simp_all add: Clean_def Let_def cleanLoop_trailing cleanLoop_trailing_Cons)


lemma prefixMatch_trailing_slash:
  "requiredPrefix \<noteq> [] \<Longrightarrow>
   prefixMatch (requiredPrefix @ ''/'') filePath = prefixMatch requiredPrefix filePath"
  "filePath \<noteq> [] \<Longrightarrow>
   prefixMatch requiredPrefix (filePath @ ''/'') = prefixMatch requiredPrefix filePath"
  by (simp_all add: prefixMatch_def Clean_trailing_slash)

lemma parseLine_trailing_slash:
  assumes "requiredPrefix \<noteq> []"
  shows "parseLine (requiredPrefix @ ''/'') st line = parseLine requiredPrefix st line"
  unfolding parseLine_def Clean_trailing_slash [OF assms] ..

lemma scanLines_trailing_slash:
  assumes "requiredPrefix \<noteq> []"
  shows "scanLines (requiredPrefix @ ''/'') lines = scanLines requiredPrefix lines"
proof -
  have "parseLine (requiredPrefix @ ''/'') = parseLine requiredPrefix"
    using parseLine_trailing_slash [OF assms] by (intro ext)
  then show ?thesis by (simp add: scanLines_def)
qed

text \<open>
  Claim C2, as stated, fails. On the Unix build a backslash is an ordinary byte:
  \<open>filepath.Clean\<close> and \<open>filepath.ToSlash\<close> leave it alone, so the prefix \<open>a\b\<close> does not match
  the entry \<open>a/b/img1.vtex\<close> that \<open>a/b\<close> matches, and \<open>ParseVPKDir\<close> returns nothing where it
  returns 44 for \<open>a/b\<close>. The slash that is the whole prefix, or the whole path, cannot be
  removed either: the empty string is cleaned to a dot.
\<close>

theorem C2_counterexample:
  "prefixMatch ''a/b'' ''a/b/img1.vtex''
   \<and> \<not> prefixMatch (''a'' @ [CHR 0x5C] @ ''b'') ''a/b/img1.vtex''
   \<and> ParseVPKDir roundtrip_listing ''a/b'' (Inr [44])
   \<and> \<not> ParseVPKDir roundtrip_listing (''a'' @ [CHR 0x5C] @ ''b'') (Inr [44])
   \<and> ParseVPKDir roundtrip_listing (''a'' @ [CHR 0x5C] @ ''b'') (Inr [])
   \<and> prefixMatch ''/'' ''/x'' \<and> \<not> prefixMatch [] ''/x''
   \<and> prefixMatch ''.'' [] \<and> \<not> prefixMatch ''.'' ''/''"
proof -
  have "fnumberSet (scanLines (''a'' @ [CHR 0x5C] @ ''b'')
          [''a/b/img1.vtex crc=1 metadatasz=0 fnumber=44 ofs=0 sz=10'',
           ''a/b/img2.vtex crc=2 metadatasz=0 fnumber=44 ofs=10 sz=10'',
           ''c/d/x.vtex crc=3 metadatasz=0 fnumber=7 ofs=0 sz=10'']) = {}"
    by code_simp
  then have "ParseVPKDir roundtrip_listing (''a'' @ [CHR 0x5C] @ ''b'') res = (res = Inr [])"
    for res
    by (cases res)
      (simp_all add: ParseVPKDir_def ParseVPKDir_scan_def roundtrip_listing_def rangeKeys_empty
        Let_def)
  moreover have "prefixMatch ''a/b'' ''a/b/img1.vtex''" by code_simp
  moreover have "\<not> prefixMatch (''a'' @ [CHR 0x5C] @ ''b'') ''a/b/img1.vtex''" by code_simp
  moreover have "prefixMatch ''/'' ''/x''" by code_simp
  moreover have "\<not> prefixMatch [] ''/x''" by code_simp
  moreover have "prefixMatch ''.'' []" by code_simp
  moreover have "\<not> prefixMatch ''.'' ''/''" by code_simp
  ultimately show ?thesis using roundtrip_parse by simp
qed

text \<open>
  Claim C2, amended. For a prefix and an entry path that are not empty, a slash added at
  the end of the prefix or at the end of the path does not change the match, nor the
  state, the results and the errors of \<open>ParseVPKDir\<close>; so \<open>a/b/\<close> and \<open>a/b\<close> are matched alike.
  \<open>filepath.ToSlash\<close> returns its argument unchanged on this build.
\<close>

theorem C2_trailing_slash_invariance:
  assumes "requiredPrefix \<noteq> []" and "filePath \<noteq> []"
  shows "prefixMatch (requiredPrefix @ ''/'') filePath = prefixMatch requiredPrefix filePath
       \<and> prefixMatch requiredPrefix (filePath @ ''/'') = prefixMatch requiredPrefix filePath
       \<and> ParseVPKDir_scan file (requiredPrefix @ ''/'') = ParseVPKDir_scan file requiredPrefix
       \<and> (\<forall>res. ParseVPKDir file (requiredPrefix @ ''/'') res
                 = ParseVPKDir file requiredPrefix res)
       \<and> ToSlash requiredPrefix = requiredPrefix \<and> ToSlash filePath = filePath"
proof -
  have s: "ParseVPKDir_scan file (requiredPrefix @ ''/'') = ParseVPKDir_scan file requiredPrefix"
    unfolding ParseVPKDir_scan_def scanLines_trailing_slash [OF assms(1)] ..
  then have "ParseVPKDir file (requiredPrefix @ ''/'') res = ParseVPKDir file requiredPrefix res"
    for res
    by (simp add: ParseVPKDir_def)
  moreover have "ToSlash requiredPrefix = requiredPrefix" "ToSlash filePath = filePath"
    by (simp_all add: ToSlash_def Separator_def)
  ultimately show ?thesis
    using s prefixMatch_trailing_slash(1) [OF assms(1)] prefixMatch_trailing_slash(2) [OF assms(2)]
    by blast
qed

text \<open>
  The theorem at the prefix \<open>a/b\<close> and the path \<open>a/b/img1.vtex\<close>.
\<close>

theorem C2_witness:
  "''a/b'' \<noteq> [] \<and> ''a/b/img1.vtex'' \<noteq> []
   \<and> prefixMatch (''a/b'' @ ''/'') ''a/b/img1.vtex''
   \<and> prefixMatch ''a/b'' (''a/b/img1.vtex'' @ ''/'')
   \<and> ParseVPKDir roundtrip_listing (''a/b'' @ ''/'') (Inr [44])"
proof -
  have h: "''a/b'' \<noteq> []" "''a/b/img1.vtex'' \<noteq> []" by simp_all
  have m: "prefixMatch ''a/b'' ''a/b/img1.vtex''" by code_simp
  from C2_trailing_slash_invariance [OF h, of roundtrip_listing] m roundtrip_parse
  have "prefixMatch (''a/b'' @ ''/'') ''a/b/img1.vtex''"
    "prefixMatch ''a/b'' (''a/b/img1.vtex'' @ ''/'')"
    "ParseVPKDir roundtrip_listing (''a/b'' @ ''/'') (Inr [44])"
    by blast+
  with h show ?thesis by blast
qed

section \<open>Segment paths\<close>

lemma digit_byteval: "d < 10 \<Longrightarrow> byteval (''0123456789'' ! d) = 48 + d"
proof -
  assume "d < 10"
  then have "d \<in> set [0..<10]" by simp
  moreover have "\<forall>k\<in>set [0..<10]. byteval (''0123456789'' ! k) = 48 + k"
    by code_simp
  ultimately show ?thesis by blast
qed

lemma digit_isDigit: "d < 10 \<Longrightarrow> isDigit (''0123456789'' ! d)"
  by (simp add: isDigit_def digit_byteval)

lemma digitsValue_snoc:
  "digitsValue (ds @ [c]) = digitsValue ds * 10 + (int (byteval c) - 48)"
  by (simp add: digitsValue_def)

lemma decDigits_digits: "list_all isDigit (decDigits u)"
proof (induction u rule: decDigits.induct)
  case (1 u)
  show ?case
  proof (cases "u < 10")
    case True
    then show ?thesis by (subst decDigits.simps) (simp add: digit_isDigit)
  next
    case False
    then show ?thesis
      using 1 by (subst decDigits.simps) (simp add: digit_isDigit)
  qed
qed

lemma decDigits_value: "digitsValue (decDigits u) = int u"
proof (induction u rule: decDigits.induct)
  case (1 u)
  show ?case
  proof (cases "u < 10")
    case True
    then show ?thesis
      by (subst decDigits.simps) (simp add: digitsValue_def digit_byteval)
  next
    case False
    then have "digitsValue (decDigits (u div 10)) = int (u div 10)" using 1 by simp
    moreover have "int (u div 10) * 10 + int (u mod 10) = int u" by presburger
    ultimately show ?thesis
      using False by (subst decDigits.simps) (simp add: digitsValue_snoc digit_byteval)
  qed
qed

lemma decDigits_nonempty: "decDigits u \<noteq> []"
  by (subst decDigits.simps) simp

lemma decDigits_length: "u \<le> 999 \<Longrightarrow> length (decDigits u) \<le> 3"
proof -
  assume u: "u \<le> 999"
  have 1: "length (decDigits v) = 1" if "v < 10" for v
    using that by (subst decDigits.simps) simp
  have 2: "length (decDigits v) \<le> 2" if "v < 100" for v
    using that 1 [of "v div 10"] by (subst decDigits.simps) auto
  show ?thesis
    using u 2 [of "u div 10"] 1 [of u] by (subst decDigits.simps) auto
qed

lemma digitsValue_zeros: "digitsValue (replicate k (CHR ''0'') @ ds) = digitsValue ds"
proof -
  have "foldl (\<lambda>n ch. n * 10 + (int (byteval ch) - 48)) 0 (replicate k (CHR ''0'')) = 0"
    by (induction k) (simp_all add: byteval_def)
  then show ?thesis by (simp add: digitsValue_def)
qed

lemma zero_isDigit: "isDigit (CHR ''0'')"
  by (simp add: isDigit_def byteval_def)

lemma minus_not_digit: "\<not> isDigit (CHR ''-'')"
  by (simp add: isDigit_def byteval_def)

lemma fmt_03d_nonneg:
  assumes "0 \<le> n"
  shows "list_all isDigit (fmt_03d n)" "digitsValue (fmt_03d n) = n" "3 \<le> length (fmt_03d n)"
    "n \<le> 999 \<Longrightarrow> length (fmt_03d n) = 3"
proof -
  have f: "fmt_03d n = replicate (3 - length (decDigits (nat n))) (CHR ''0'') @ decDigits (nat n)"
    using assms by (simp add: fmt_03d_def Let_def)
  show "list_all isDigit (fmt_03d n)"
    using decDigits_digits [of "nat n"] zero_isDigit by (auto simp: f list_all_iff)
  show "digitsValue (fmt_03d n) = n"
    using assms by (simp add: f digitsValue_zeros decDigits_value)
  show "3 \<le> length (fmt_03d n)" by (simp add: f)
  show "length (fmt_03d n) = 3" if "n \<le> 999"
    using decDigits_length [of "nat n"] that assms by (simp add: f)
qed

lemma fmt_03d_neg:
  assumes "n < 0"
  shows "hd (fmt_03d n) = CHR ''-''" "list_all isDigit (tl (fmt_03d n))"
    "digitsValue (tl (fmt_03d n)) = - n" "2 \<le> length (tl (fmt_03d n))"
proof -
  have f: "fmt_03d n = CHR ''-'' # replicate (2 - length (decDigits (nat (- n)))) (CHR ''0'')
                          @ decDigits (nat (- n))"
    using assms by (simp add: fmt_03d_def Let_def)
  show "hd (fmt_03d n) = CHR ''-''" by (simp add: f)
  show "list_all isDigit (tl (fmt_03d n))"
    using decDigits_digits [of "nat (- n)"] zero_isDigit by (auto simp: f list_all_iff)
  show "digitsValue (tl (fmt_03d n)) = - n"
    using assms by (simp add: f digitsValue_zeros decDigits_value)
  show "2 \<le> length (tl (fmt_03d n))" by (simp add: f)
qed

lemma fmt_03d_inj: "fmt_03d n = fmt_03d m \<Longrightarrow> n = m"
proof -
  assume e: "fmt_03d n = fmt_03d m"
  have sign: False if "a < 0" "0 \<le> b" "fmt_03d a = fmt_03d b" for a b
  proof -
    from fmt_03d_nonneg(1,3) [OF that(2)] have "isDigit (hd (fmt_03d b))"
      by (cases "fmt_03d b") simp_all
    moreover have "hd (fmt_03d b) = CHR ''-''"
      using fmt_03d_neg(1) [OF that(1)] by (simp only: that(3))
    ultimately show False by (simp add: minus_not_digit)
  qed
  have v: "digitsValue (fmt_03d n) = digitsValue (fmt_03d m)"
    "digitsValue (tl (fmt_03d n)) = digitsValue (tl (fmt_03d m))"
    by (simp_all only: e)
  show "n = m"
  proof (cases "n < 0")
    case n: True
    show ?thesis
    proof (cases "m < 0")
      case True
      with n v(2) show ?thesis by (simp add: fmt_03d_neg(3))
    next
      case False
      with n sign [of n m] e show ?thesis by auto
    qed
  next
    case n: False
    show ?thesis
    proof (cases "m < 0")
      case True
      with n sign [of m n] e show ?thesis by auto
    next
      case False
      with n v(1) show ?thesis by (simp add: fmt_03d_nonneg(2))
    qed
  qed
qed

lemma fmt_03d_no_sep: "\<forall>x\<in>set (fmt_03d n). \<not> IsPathSeparator x"
proof -
  have d: "\<not> IsPathSeparator x" if "isDigit x" for x
    using that by (auto simp: isDigit_def IsPathSeparator_def byteval_def)
  show ?thesis
  proof (cases "n < 0")
    case True
    have "fmt_03d n = hd (fmt_03d n) # tl (fmt_03d n)"
      using True by (simp add: fmt_03d_def Let_def)
    then have "set (fmt_03d n) = insert (CHR ''-'') (set (tl (fmt_03d n)))"
      using fmt_03d_neg(1) [OF True] by (metis list.simps(15))
    then show ?thesis
      using fmt_03d_neg(2) [OF True] d by (auto simp: list_all_iff IsPathSeparator_def)
  next
    case False
    then show ?thesis using fmt_03d_nonneg(1) [of n] d by (auto simp: list_all_iff)
  qed
qed


lemma vpkName_no_sep: "\<forall>x\<in>set (vpkName n). \<not> IsPathSeparator x"
  using fmt_03d_no_sep [of n] by (auto simp: vpkName_def IsPathSeparator_def)

lemma cleanLoop_element:
  assumes "\<forall>x\<in>set (c # rest). \<not> IsPathSeparator x" "c \<noteq> CHR ''.''"
  shows "cleanLoop rooted (c # rest) (out, dotdot) =
     ((if rooted \<and> length out \<noteq> 1 \<or> \<not> rooted \<and> length out \<noteq> 0
       then out @ [Separator] else out) @ c # rest, dotdot)"
proof -
  have t: "takeWhile (\<lambda>x. \<not> IsPathSeparator x) (c # rest) = c # rest"
    using assms(1) by (metis takeWhile_eq_all_conv)
  have d: "dropWhile (\<lambda>x. \<not> IsPathSeparator x) (c # rest) = []"
    using assms(1) by (metis dropWhile_eq_Nil_conv)
  have n1: "\<not> IsPathSeparator c" using assms(1) by simp
  have n2: "\<not> (c = CHR ''.'' \<and> (rest = [] \<or> IsPathSeparator (hd rest)))"
    and n3: "\<not> (c = CHR ''.'' \<and> hd rest = CHR ''.''
             \<and> (tl rest = [] \<or> IsPathSeparator (hd (tl rest))))"
    using assms(2) by simp_all
  show ?thesis
    by (simp only: cleanLoop_elem [OF n1 n2 n3] t d cleanLoop_Nil)
qed

lemma cleanLoop_split_Cons:
  "cleanLoop rooted (c # a @ CHR ''/'' # b) st = cleanLoop rooted b (cleanLoop rooted (c # a) st)"
  using cleanLoop_split [of rooted "c # a" b st] by simp

lemma vpkName_Cons: "\<exists>t. vpkName n = CHR ''p'' # t"
  by (simp add: vpkName_def)

lemma FromSlash_id: "FromSlash p = p"
  by (simp add: FromSlash_def Separator_def)

lemma cleanLoop_name:
  "cleanLoop rooted (vpkName n) (out, dotdot) =
     ((if rooted \<and> length out \<noteq> 1 \<or> \<not> rooted \<and> length out \<noteq> 0
       then out @ [Separator] else out) @ vpkName n, dotdot)"
proof -
  obtain t where v: "vpkName n = CHR ''p'' # t" using vpkName_Cons by blast
  have "\<forall>x\<in>set (CHR ''p'' # t). \<not> IsPathSeparator x"
    using vpkName_no_sep [of n] by (simp only: v)
  then show ?thesis
    unfolding v by (rule cleanLoop_element) simp
qed

lemma Clean_with_name:
  assumes "baseDir \<noteq> []"
  shows "\<exists>pre. \<forall>n. Clean (baseDir @ CHR ''/'' # vpkName n) = pre @ vpkName n"
proof -
  obtain b bs where b: "baseDir = b # bs" using assms by (cases baseDir) auto
  have ne: "vpkName n \<noteq> []" for n using vpkName_Cons [of n] by auto
  show ?thesis
  proof (cases "IsPathSeparator b")
    case True
    obtain out dotdot where st: "cleanLoop True bs ([Separator], Suc 0) = (out, dotdot)"
      by (cases "cleanLoop True bs ([Separator], Suc 0)")
    have "Clean (baseDir @ CHR ''/'' # vpkName n)
            = (if length out \<noteq> 1 then out @ [Separator] else out) @ vpkName n" for n
      using ne [of n]
      by (simp add: b Clean_def Let_def True cleanLoop_split st cleanLoop_name FromSlash_id)
    then show ?thesis by blast
  next
    case False
    obtain out dotdot where st: "cleanLoop False (b # bs) ([], 0) = (out, dotdot)"
      by (cases "cleanLoop False (b # bs) ([], 0)")
    have "Clean (baseDir @ CHR ''/'' # vpkName n)
            = (if length out \<noteq> 0 then out @ [Separator] else out) @ vpkName n" for n
      using ne [of n]
      by (simp add: b Clean_def Let_def False cleanLoop_split_Cons st cleanLoop_name
          FromSlash_id)
    then show ?thesis by blast
  qed
qed

lemma Clean_name: "Clean (vpkName n) = vpkName n"
proof -
  obtain t where v: "vpkName n = CHR ''p'' # t" using vpkName_Cons by blast
  have "cleanLoop False (vpkName n) ([], 0) = (vpkName n, 0)"
    by (simp add: cleanLoop_name)
  then show ?thesis
    unfolding v by (simp add: Clean_def Let_def IsPathSeparator_def FromSlash_id)
qed

lemma vpkPath_shape: "\<exists>pre. \<forall>n. vpkPath baseDir n = pre @ vpkName n"
proof (cases "baseDir = []")
  case True
  have "vpkName n \<noteq> []" for n using vpkName_Cons [of n] by auto
  then have "vpkPath baseDir n = [] @ vpkName n" for n
    using True Clean_name [of n] by (simp add: vpkPath_def)
  then show ?thesis by blast
next
  case False
  then have "vpkPath baseDir n = Clean (baseDir @ CHR ''/'' # vpkName n)" for n
    by (simp add: vpkPath_def Separator_def)
  then show ?thesis
    using Clean_with_name [OF False] by simp
qed

lemma vpkName_inj: "vpkName n = vpkName m \<Longrightarrow> n = m"
  by (simp add: vpkName_def fmt_03d_inj)

lemma vpkPath_inj: "inj (vpkPath baseDir)"
proof (rule injI)
  fix n m assume e: "vpkPath baseDir n = vpkPath baseDir m"
  obtain pre where "\<And>k. vpkPath baseDir k = pre @ vpkName k"
    using vpkPath_shape [of baseDir] by blast
  with e have "vpkName n = vpkName m" by simp
  then show "n = m" by (rule vpkName_inj)
qed

lemma vpkSet_image: "vpkSet fnumbers baseDir = vpkPath baseDir ` set fnumbers"
proof -
  have "foldl (\<lambda>acc fnum. insert (vpkPath baseDir fnum) acc) S fnumbers
          = S \<union> vpkPath baseDir ` set fnumbers" for S
    by (induction fnumbers arbitrary: S) auto
  then show ?thesis by (simp add: vpkSet_def)
qed

lemma MapFNumberToVPK_returns: "\<exists>vpks. MapFNumberToVPK fnumbers baseDir vpks"
proof -
  have "finite (vpkSet fnumbers baseDir)" by (simp add: vpkSet_image)
  then obtain xs where "set xs = vpkSet fnumbers baseDir" "distinct xs"
    using finite_distinct_list by blast
  then show ?thesis by (auto simp: MapFNumberToVPK_def rangeKeys_def)
qed

text \<open>
  Claim C6. A slice that \<open>MapFNumberToVPK\<close> returns holds, once each, the paths
  \<open>Join(baseDir, pak01_<nnn>.vpk)\<close> of the fnumbers given: it has no duplicates, and its
  length is the number of distinct paths, which is the number of distinct fnumbers, since
  distinct fnumbers give distinct paths. \<open><nnn>\<close> is the decimal numeral of the fnumber
  padded with zeros to at least three digits: for a fnumber from 0 on it consists of
  digits, denotes the fnumber and has three digits up to 999 (more above, as \<open>%03d\<close>
  prints them); for a negative one the sign comes first and takes one place of the width.
\<close>

theorem C6_segment_paths:
  assumes "MapFNumberToVPK fnumbers baseDir vpks"
  shows "set vpks = (\<lambda>fnum. Join [baseDir, ''pak01_'' @ fmt_03d fnum @ ''.vpk'']) ` set fnumbers
       \<and> distinct vpks
       \<and> length vpks = card ((\<lambda>fnum. Join [baseDir, ''pak01_'' @ fmt_03d fnum @ ''.vpk''])
                               ` set fnumbers)
       \<and> length vpks = card (set fnumbers)
       \<and> (\<forall>fnum. 0 \<le> fnum \<longrightarrow>
             list_all isDigit (fmt_03d fnum) \<and> digitsValue (fmt_03d fnum) = fnum
             \<and> 3 \<le> length (fmt_03d fnum) \<and> (fnum \<le> 999 \<longrightarrow> length (fmt_03d fnum) = 3))
       \<and> (\<forall>fnum. fnum < 0 \<longrightarrow>
             hd (fmt_03d fnum) = CHR ''-'' \<and> list_all isDigit (tl (fmt_03d fnum))
             \<and> digitsValue (tl (fmt_03d fnum)) = - fnum \<and> 2 \<le> length (tl (fmt_03d fnum)))"
proof -
  have p: "(\<lambda>fnum. Join [baseDir, ''pak01_'' @ fmt_03d fnum @ ''.vpk'']) = vpkPath baseDir"
    by (intro ext) (simp only: vpkPath_def vpkName_def)
  from assms have d: "distinct vpks" and s: "set vpks = vpkPath baseDir ` set fnumbers"
    by (simp_all add: MapFNumberToVPK_def rangeKeys_def vpkSet_image)
  from d have l: "length vpks = card (set vpks)" by (simp add: distinct_card)
  have c: "card (vpkPath baseDir ` set fnumbers) = card (set fnumbers)"
    by (rule card_image) (rule inj_on_subset [OF vpkPath_inj subset_UNIV])
  show ?thesis
    unfolding p using d s l c fmt_03d_nonneg fmt_03d_neg by simp
qed

text \<open>The theorem at the fnumbers 44, 187 and 44 again, with the base directory of \<open>main\<close>.\<close>

theorem C6_witness:
  "MapFNumberToVPK [44, 187, 44] ''game/csgo''
     [''game/csgo/pak01_044.vpk'', ''game/csgo/pak01_187.vpk'']
   \<and> set [''game/csgo/pak01_044.vpk'', ''game/csgo/pak01_187.vpk'']
       = (\<lambda>fnum. Join [''game/csgo'', ''pak01_'' @ fmt_03d fnum @ ''.vpk'']) ` set [44, 187, 44]
   \<and> length [''game/csgo/pak01_044.vpk'', ''game/csgo/pak01_187.vpk'']
       = card (set [44, 187, 44 :: int])
   \<and> (0::int) \<le> 44 \<and> (44::int) \<le> 999
   \<and> fmt_03d 44 = ''044'' \<and> length (fmt_03d 44) = 3 \<and> digitsValue (fmt_03d 44) = 44"
proof -
  have h: "MapFNumberToVPK [44, 187, 44] ''game/csgo''
     [''game/csgo/pak01_044.vpk'', ''game/csgo/pak01_187.vpk'']"
    by code_simp
  have f: "fmt_03d 44 = ''044''" by code_simp
  from C6_segment_paths [OF h]
  have "set [''game/csgo/pak01_044.vpk'', ''game/csgo/pak01_187.vpk'']
       = (\<lambda>fnum. Join [''game/csgo'', ''pak01_'' @ fmt_03d fnum @ ''.vpk'']) ` set [44, 187, 44]"
    "length [''game/csgo/pak01_044.vpk'', ''game/csgo/pak01_187.vpk'']
       = card (set [44, 187, 44 :: int])"
    "length (fmt_03d 44) = 3" "digitsValue (fmt_03d 44) = 44"
    by simp_all
  with h f show ?thesis by simp
qed

end
